theory Spec2Isabelle
  imports Complex_Main "HOL-Library.AList"
begin

section \<open>The driver script \<^verbatim>\<open>bin/DP_GP_cluster.py\<close>\<close>

text \<open>
  The script is one module-level sequence of statements: parse and check the arguments,
  seed the random generator, read the expression matrices, rescale the time vector,
  derive the burn-in lengths, construct and run the Gibbs sampler, select one clustering,
  group the genes by cluster, refit every cluster, save the results and (optionally) plot.

  The packages \<^verbatim>\<open>DP_GP.core\<close>, \<^verbatim>\<open>DP_GP.cluster_tools\<close> and
  \<^verbatim>\<open>DP_GP.plot\<close> the script calls are parameters of the model (a record of
  functions, \<open>collaborators\<close>). Each call may raise, may draw from numpy's global random
  generator, and returns a value.

  The script does floating-point arithmetic in two places. Line 297 is computed by numpy
  on arrays; its three operations are parameters of the model as well, and nothing is
  proved of their values. Line 306 is one conversion and one product, modelled with the
  rounding of \<^verbatim>\<open>float64\<close>. Everywhere else numbers are passed on as they are,
  and those are modelled by \<open>real\<close>.
\<close>

subsection \<open>Command-line arguments (lines 72-260, after \<^verbatim>\<open>parser.parse_args()\<close>)\<close>

text \<open>
  One field per \<^verbatim>\<open>dest\<close> of the parser. The destinations \<^verbatim>\<open>s\<close> and
  \<^verbatim>\<open>m\<close> are named by their long options (\<^verbatim>\<open>--thinning_param\<close>,
  \<^verbatim>\<open>--num_empty_clusters\<close>). The two arguments without a default are
  \<open>None\<close> when they are not given.
\<close>

record args =
  gene_expression_matrix :: "string option"
  output_path_prefix :: "string option"
  max_num_iterations :: int
  max_iters :: int
  thinning_param :: int
  optimizer :: string
  alpha :: real
  num_empty_clusters :: int
  sigma_n2_shape :: real
  sigma_n2_rate :: real
  length_scale_mu :: real
  length_scale_sigma :: real
  sigma_f_mu :: real
  sigma_f_sigma :: real
  check_convergence :: bool
  plot :: bool
  true_times :: bool
  do_not_mean_center :: bool
  criterion :: string
  plot_types :: string
  time_unit :: string

text \<open>The parser's defaults (the \<^verbatim>\<open>default=\<close> of each \<^verbatim>\<open>add_argument\<close>).\<close>

definition default_args :: args where
  "default_args = \<lparr>
     gene_expression_matrix = None, output_path_prefix = None,
     max_num_iterations = 1000, max_iters = 1000, thinning_param = 3,
     optimizer = ''lbfgsb'', alpha = 1, num_empty_clusters = 4,
     sigma_n2_shape = 12, sigma_n2_rate = 2,
     length_scale_mu = 0, length_scale_sigma = 1, sigma_f_mu = 0, sigma_f_sigma = 1,
     check_convergence = False, plot = False, true_times = False,
     do_not_mean_center = False, criterion = ''MAP'', plot_types = ''pdf'',
     time_unit = '''' \<rparr>"

subsection \<open>Errors\<close>

datatype error =
    Help_exit                   \<comment> \<open>\<^verbatim>\<open>parser.print_help(); exit()\<close>, line 272-273\<close>
  | ValueError_criterion        \<comment> \<open>\<^verbatim>\<open>raise ValueError("incorrect criterion...")\<close>, line 280\<close>
  | ValueError_length_mismatch  \<comment> \<open>pandas: new column labels of the wrong length\<close>
  | NameError                   \<comment> \<open>\<^verbatim>\<open>optimal_clusters\<close> read but never bound\<close>
  | IndexError                  \<comment> \<open>a row or name index out of range\<close>
  | ValueError_vstack           \<comment> \<open>\<^verbatim>\<open>np.vstack\<close> of an empty time vector, line 361\<close>
  | TypeError_floor             \<comment> \<open>\<^verbatim>\<open>np.floor\<close> of an integer beyond 64 bits, line 306\<close>
  | Configuration_error         \<comment> \<open>an invalid configuration, as the spec names it\<close>
  | Raised nat                  \<comment> \<open>an exception raised inside a collaborator\<close>

subsection \<open>Checking the arguments (lines 270-281)\<close>

definition valid_criteria :: "string list" where
  "valid_criteria = [''MAP'', ''MPEAR'', ''least_squares'', ''h_clust_avg'', ''h_clust_comp'']"

text \<open>
  Help is printed and the process exits when a required argument is missing; only then is
  the criterion looked at. A run that passes both checks goes on with the two paths.
\<close>

definition check_arguments :: "args \<Rightarrow> error + string \<times> string" where
  "check_arguments a =
     (case (gene_expression_matrix a, output_path_prefix a) of
        (Some input, Some prefix) \<Rightarrow>
          if List.member valid_criteria (criterion a) then Inr (input, prefix)
          else Inl ValueError_criterion
      | _ \<Rightarrow> Inl Help_exit)"

subsection \<open>Floating-point values\<close>

text \<open>
  A value of numpy's \<^verbatim>\<open>float64\<close>: a finite number with its sign, significand and
  exponent (the significand \<open>m\<close> and the exponent \<open>e\<close> stand for \<open>m * 2 ^ e\<close>), an
  infinity with its sign, or nan. The script does arithmetic on such values in one place,
  line 297, and there it is numpy that computes.
\<close>

datatype float64 = Finite bool nat int | Infinity bool | NaN

text \<open>
  \<^verbatim>\<open>np.vstack(t)\<close> (line 361) turns the time vector into a column; numpy raises
  \<^verbatim>\<open>ValueError\<close> when the vector is empty.
\<close>

definition np_vstack :: "float64 list \<Rightarrow> error + float64 list list" where
  "np_vstack t = (if t = [] then Inl ValueError_vstack else Inr (map (\<lambda>x. [x]) t))"

subsection \<open>Burn-in lengths (lines 306-308)\<close>

text \<open>The number of binary digits of a natural number (Python's \<^verbatim>\<open>bit_length\<close>).\<close>

fun bit_length :: "nat \<Rightarrow> nat" where
  "bit_length n = (if n = 0 then 0 else Suc (bit_length (n div 2)))"

declare bit_length.simps [simp del]

text \<open>
  Rounding a natural number to the nearest number with at most 53 significant binary
  digits, ties to the even significand: what the conversion to \<^verbatim>\<open>float64\<close> and
  every \<^verbatim>\<open>float64\<close> operation do to an exact result of this size.
\<close>

definition round53 :: "nat \<Rightarrow> nat" where
  "round53 M =
     (if M < 2 ^ 53 then M
      else let s = bit_length M - 53; q = M div 2 ^ s; r = M mod 2 ^ s in
           (if r < 2 ^ (s - 1) \<or> (r = 2 ^ (s - 1) \<and> even q) then q else q + 1) * 2 ^ s)"

text \<open>
  \<^verbatim>\<open>np.floor(k)\<close> of a Python integer: the integer is converted to
  \<^verbatim>\<open>float64\<close> (its floor is itself) when it fits in 64 bits, signed or unsigned;
  a larger Python \<^verbatim>\<open>long\<close> becomes an object for which numpy has no
  \<^verbatim>\<open>floor\<close>, and the call raises. The result is integral and is kept as an
  integer.
\<close>

definition float_of_int :: "int \<Rightarrow> int" where
  "float_of_int k = sgn k * int (round53 (nat \<bar>k\<bar>))"

definition np_floor :: "int \<Rightarrow> error + int" where
  "np_floor k =
     (if - (2 ^ 63) \<le> k \<and> k < 2 ^ 64 then Inr (float_of_int k) else Inl TypeError_floor)"

text \<open>
  The \<^verbatim>\<open>float64\<close> nearest to 1.2 is \<open>5404319552844595 / 2 ^ 52\<close>. The product of
  an integral \<^verbatim>\<open>float64\<close> \<open>f\<close> with it is the exact product rounded to 53
  significant digits, and Python's \<^verbatim>\<open>int()\<close> truncates it towards zero.
\<close>

definition int_of_times_1_2 :: "int \<Rightarrow> int" where
  "int_of_times_1_2 f =
     sgn f * int (round53 (nat \<bar>f\<bar> * 5404319552844595) div 2 ^ 52)"

text \<open>
  \<^verbatim>\<open>int(np.floor(args.max_num_iterations/5) * 1.2)\<close>; the script is Python 2,
  where \<^verbatim>\<open>/\<close> on two integers is floor division. \<open>burnIn\<close> is lines 306-308 as
  executed: it raises when \<^verbatim>\<open>np.floor\<close> does; \<open>burnIn_phaseI\<close> and
  \<open>burnIn_phaseII\<close> are the two values bound when it does not.
\<close>

definition burnIn_phaseI :: "int \<Rightarrow> int" where
  "burnIn_phaseI n = int_of_times_1_2 (float_of_int (n div 5))"

definition burnIn_phaseII :: "int \<Rightarrow> int" where
  "burnIn_phaseII n = burnIn_phaseI n * 2"

definition burnIn :: "int \<Rightarrow> error + int \<times> int" where
  "burnIn n =
     (case np_floor (n div 5) of
        Inl e \<Rightarrow> Inl e
      | Inr f \<Rightarrow> Inr (int_of_times_1_2 f, int_of_times_1_2 f * 2))"

subsection \<open>Values exchanged with the collaborators\<close>

text \<open>
  What \<^verbatim>\<open>core.read_gene_expression_matrices\<close> returns (line 292): the expression
  matrix (one row per gene), the gene names, the noise variances (or \<^verbatim>\<open>None\<close>),
  the shape and rate of the noise prior, and the time vector.
\<close>

record design =
  d_gene_expression_matrix :: "real list list"
  d_gene_names :: "string list"
  d_sigma_n :: "real list option"
  d_sigma_n2_shape :: real
  d_sigma_n2_rate :: real
  d_t :: "float64 list"

text \<open>The twenty positional arguments of \<^verbatim>\<open>core.gibbs_sampler\<close> (lines 322-324).\<close>

record sampler_args =
  gs_gene_expression_matrix :: "real list list"
  gs_t :: "float64 list"
  gs_max_num_iterations :: int
  gs_max_iters :: int
  gs_optimizer :: string
  gs_burnIn_phaseI :: int
  gs_burnIn_phaseII :: int
  gs_alpha :: real
  gs_m :: int
  gs_s :: int
  gs_check_convergence :: bool
  gs_sigma_n :: "real list option"
  gs_sigma_n2_shape :: real
  gs_sigma_n2_rate :: real
  gs_length_scale_mu :: real
  gs_length_scale_sigma :: real
  gs_sigma_f_mu :: real
  gs_sigma_f_sigma :: real
  gs_sq_dist_eps :: real
  gs_post_eps :: real

text \<open>A pandas data frame of cluster ids: column labels and rows.\<close>

record dataframe =
  df_columns :: "string list"
  df_values :: "int list list"

text \<open>The five values \<^verbatim>\<open>GS.sampler()\<close> returns (line 326).\<close>

record sampler_out =
  sim_mat :: "real list list"
  all_clusterings :: dataframe
  sampled_clusterings :: dataframe
  log_likelihoods :: "real list"
  iter_num :: int

text \<open>
  A call of one of the four selection functions of \<^verbatim>\<open>cluster_tools\<close>, with
  the arguments the script passes (lines 339-347).
\<close>

datatype selection_call =
    Best_clustering_by_mpear "int list list" "real list list"
  | Best_clustering_by_log_likelihood "int list list" "real list"
  | Best_clustering_by_sq_dist "int list list" "real list list"
  | Best_clustering_by_h_clust "real list list" string

text \<open>The keyword arguments of \<^verbatim>\<open>core.dp_cluster\<close> (line 361).\<close>

record dp_cluster_call =
  dc_members :: "nat list"
  dc_sigma_n :: "real list option"
  dc_X :: "float64 list list"
  dc_Y :: "real list list"
  dc_iter_num_at_birth :: int

text \<open>The arguments of \<^verbatim>\<open>update_cluster_attributes\<close> (line 362).\<close>

record update_call =
  uc_gene_expression_matrix :: "real list list"
  uc_sigma_n2_shape :: real
  uc_sigma_n2_rate :: real
  uc_length_scale_mu :: real
  uc_length_scale_sigma :: real
  uc_sigma_f_mu :: real
  uc_sigma_f_sigma :: real
  uc_iter_num :: int
  uc_max_iters :: int
  uc_optimizer :: string

text \<open>The calls that write a text file (lines 370-373 and 386).\<close>

datatype save_call =
    Save_posterior_similarity_matrix "real list list" "string list" string
  | Save_clusterings dataframe string
  | Save_log_likelihoods "real list" string
  | Save_cluster_membership_information "(int \<times> string list) list" string
  | Save_posterior_similarity_matrix_key "string list" string

text \<open>The two plotting calls that return nothing (lines 387-388).\<close>

datatype 'c plot_call =
    Plot_cluster_sizes_over_iterations "int list list" int int int string "string list"
  | Plot_cluster_gene_expression "(int \<times> 'c) list" "real list list" "string list"
      "float64 list" string string "string list"

subsection \<open>The run: events, generator state, exceptions\<close>

text \<open>
  Every effect of the script is recorded, in order, as an event: seeding the generator and
  each call of a collaborator, logged when the call is made.
\<close>

datatype 'c event =
    Seed nat
  | Read_gene_expression_matrices "string list" bool bool real real
  | Gibbs_sampler sampler_args
  | Sampler
  | Select selection_call
  | Dp_cluster int dp_cluster_call
  | Update_cluster_attributes int 'c update_call
  | Save save_call
  | Plot_similarity_matrix "real list list" string "string list"
  | Plot "'c plot_call"

text \<open>
  The state of numpy's global generator is a number; \<^verbatim>\<open>np.random.seed(k)\<close> puts
  the generator in the state numbered \<open>k\<close>, whatever it was before.
\<close>

type_synonym rng = nat

record 'c world =
  rng :: rng
  trace :: "'c event list"

type_synonym ('c, 'a) script = "'c world \<Rightarrow> (error + 'a) \<times> 'c world"

definition ret :: "'a \<Rightarrow> ('c, 'a) script" where
  "ret v = (\<lambda>w. (Inr v, w))"

definition lift :: "error + 'a \<Rightarrow> ('c, 'a) script" where
  "lift r = (\<lambda>w. (r, w))"

text \<open>Sequencing: an exception ends the run where it is raised.\<close>

definition then_do :: "('c, 'a) script \<Rightarrow> ('a \<Rightarrow> ('c, 'b) script) \<Rightarrow> ('c, 'b) script" where
  "then_do p f = (\<lambda>w. case p w of (Inl e, w') \<Rightarrow> (Inl e, w') | (Inr v, w') \<Rightarrow> f v w')"

definition seed :: "nat \<Rightarrow> ('c, unit) script" where
  "seed k = (\<lambda>w. (Inr (), w\<lparr>rng := k, trace := trace w @ [Seed k]\<rparr>))"

text \<open>
  Calling a collaborator: the call is logged, the collaborator runs from the current
  generator state, and either raises or returns a value and the generator's new state.
\<close>

definition call :: "'c event \<Rightarrow> (rng \<Rightarrow> error + 'a \<times> rng) \<Rightarrow> ('c, 'a) script" where
  "call ev f = (\<lambda>w.
     let w' = w\<lparr>trace := trace w @ [ev]\<rparr> in
     case f (rng w') of
       Inl e \<Rightarrow> (Inl e, w')
     | Inr (v, r) \<Rightarrow> (Inr v, w'\<lparr>rng := r\<rparr>))"

text \<open>
  The collaborators: everything the script calls in \<^verbatim>\<open>DP_GP.core\<close>,
  \<^verbatim>\<open>DP_GP.cluster_tools\<close> and \<^verbatim>\<open>DP_GP.plot\<close>, and the three numpy
  operations of line 297. \<open>'g\<close> is the type of sampler objects, \<open>'c\<close> the type of
  cluster objects.

  Modelled from the spec: the functions of \<^verbatim>\<open>DP_GP.core\<close>,
  \<^verbatim>\<open>DP_GP.cluster_tools\<close> and \<^verbatim>\<open>DP_GP.plot\<close> are not in the source at
  hand. The spec says that with the random seed and all inputs fixed, two runs produce
  identical assignment histories and identical similarity matrix: each function is
  therefore a function of its arguments and of the state of numpy's global generator, which
  it may advance, and of nothing else.
\<close>

record ('g, 'c) collaborators =
  read_gene_expression_matrices ::
    "string list \<Rightarrow> bool \<Rightarrow> bool \<Rightarrow> real \<Rightarrow> real \<Rightarrow> rng \<Rightarrow> error + design \<times> rng"
  gibbs_sampler :: "sampler_args \<Rightarrow> rng \<Rightarrow> error + 'g \<times> rng"
  sampler :: "'g \<Rightarrow> rng \<Rightarrow> error + sampler_out \<times> rng"
  cluster_tools :: "selection_call \<Rightarrow> rng \<Rightarrow> error + int list \<times> rng"
  dp_cluster :: "dp_cluster_call \<Rightarrow> rng \<Rightarrow> error + 'c \<times> rng"
  update_cluster_attributes :: "'c \<Rightarrow> update_call \<Rightarrow> rng \<Rightarrow> error + 'c \<times> rng"
  save :: "save_call \<Rightarrow> rng \<Rightarrow> error + unit \<times> rng"
  plot_similarity_matrix ::
    "real list list \<Rightarrow> string \<Rightarrow> string list \<Rightarrow> rng \<Rightarrow> error + int list \<times> rng"
  plot_other :: "'c plot_call \<Rightarrow> rng \<Rightarrow> error + unit \<times> rng"
  np_diff :: "float64 list \<Rightarrow> float64 list"
  np_mean :: "float64 list \<Rightarrow> float64"
  np_divide :: "float64 list \<Rightarrow> float64 \<Rightarrow> float64 list"

subsection \<open>Reading the input (lines 292-293)\<close>

text \<open>Python's \<^verbatim>\<open>str.split(sep)\<close> for a one-character separator.\<close>

fun split_on :: "char \<Rightarrow> string \<Rightarrow> string list" where
  "split_on c [] = [[]]"
| "split_on c (x # xs) =
     (if x = c then [] # split_on c xs
      else (case split_on c xs of w # ws \<Rightarrow> (x # w) # ws | [] \<Rightarrow> [[x]]))"

definition import_data :: "('g, 'c) collaborators \<Rightarrow> args \<Rightarrow> string \<Rightarrow> ('c, design) script" where
  "import_data env a input =
     (let paths = split_on CHR '','' input in
      call (Read_gene_expression_matrices paths (true_times a) (do_not_mean_center a)
              (sigma_n2_shape a) (sigma_n2_rate a))
           (read_gene_expression_matrices env paths (true_times a) (do_not_mean_center a)
              (sigma_n2_shape a) (sigma_n2_rate a)))"

subsection \<open>Rescaling the time vector (line 297)\<close>

text \<open>
  \<^verbatim>\<open>t /= np.mean(np.diff(t))\<close>: numpy computes the differences, their mean and the
  quotients in \<^verbatim>\<open>float64\<close>, and the name \<^verbatim>\<open>t\<close> is bound to the result
  from here on. Dividing by zero or nan numpy warns and goes on.
\<close>

definition rescale_t :: "('g, 'c) collaborators \<Rightarrow> design \<Rightarrow> design" where
  "rescale_t env d = d\<lparr>d_t := np_divide env (d_t d) (np_mean env (np_diff env (d_t d)))\<rparr>"

subsection \<open>Running the sampler (lines 306-329)\<close>

text \<open>
  The argument list of line 322-324: the time vector is the one bound to \<^verbatim>\<open>t\<close>
  when the call is made, which is the rescaled one, the burn-in
  lengths are derived from \<^verbatim>\<open>args.max_num_iterations\<close>, the two convergence
  thresholds are the constants of line 314, and every other value is passed as parsed or
  as read.
\<close>

definition sampler_call :: "args \<Rightarrow> design \<Rightarrow> sampler_args" where
  "sampler_call a d = \<lparr>
     gs_gene_expression_matrix = d_gene_expression_matrix d,
     gs_t = d_t d,
     gs_max_num_iterations = max_num_iterations a,
     gs_max_iters = max_iters a,
     gs_optimizer = optimizer a,
     gs_burnIn_phaseI = burnIn_phaseI (max_num_iterations a),
     gs_burnIn_phaseII = burnIn_phaseII (max_num_iterations a),
     gs_alpha = alpha a,
     gs_m = num_empty_clusters a,
     gs_s = thinning_param a,
     gs_check_convergence = check_convergence a,
     gs_sigma_n = d_sigma_n d,
     gs_sigma_n2_shape = d_sigma_n2_shape d,
     gs_sigma_n2_rate = d_sigma_n2_rate d,
     gs_length_scale_mu = length_scale_mu a,
     gs_length_scale_sigma = length_scale_sigma a,
     gs_sigma_f_mu = sigma_f_mu a,
     gs_sigma_f_sigma = sigma_f_sigma a,
     gs_sq_dist_eps = 1 / 100,
     gs_post_eps = 1 / 100000 \<rparr>"

text \<open>\<^verbatim>\<open>df.columns = names\<close>: pandas raises when the number of labels differs.\<close>

definition set_columns :: "string list \<Rightarrow> dataframe \<Rightarrow> error + dataframe" where
  "set_columns names df =
     (if length names = length (df_columns df) then Inr (df\<lparr>df_columns := names\<rparr>)
      else Inl ValueError_length_mismatch)"

text \<open>
  Construct the sampler, run it, then label the columns of the two histories with the gene
  names (the thinned history first, line 328).
\<close>

definition run_sampler ::
  "('g, 'c) collaborators \<Rightarrow> args \<Rightarrow> design \<Rightarrow> ('c, sampler_out) script" where
  "run_sampler env a d =
     then_do (call (Gibbs_sampler (sampler_call a d)) (gibbs_sampler env (sampler_call a d)))
       (\<lambda>GS.
     then_do (call Sampler (sampler env GS)) (\<lambda>out.
     then_do (lift (set_columns (d_gene_names d) (sampled_clusterings out))) (\<lambda>sampled.
     then_do (lift (set_columns (d_gene_names d) (all_clusterings out))) (\<lambda>all.
     ret (out\<lparr>sampled_clusterings := sampled, all_clusterings := all\<rparr>)))))"

subsection \<open>Finding the optimal clustering (lines 338-347)\<close>

text \<open>
  The \<^verbatim>\<open>if\<close>/\<^verbatim>\<open>elif\<close> chain, in the order of the source. It has no
  \<^verbatim>\<open>else\<close>: for any other string nothing is called and \<^verbatim>\<open>optimal_clusters\<close>
  stays unbound.
\<close>

definition select_call :: "string \<Rightarrow> sampler_out \<Rightarrow> selection_call option" where
  "select_call c out =
     (if c = ''MPEAR'' then
        Some (Best_clustering_by_mpear (df_values (sampled_clusterings out)) (sim_mat out))
      else if c = ''MAP'' then
        Some (Best_clustering_by_log_likelihood (df_values (sampled_clusterings out))
                (log_likelihoods out))
      else if c = ''least_squares'' then
        Some (Best_clustering_by_sq_dist (df_values (sampled_clusterings out)) (sim_mat out))
      else if c = ''h_clust_avg'' then
        Some (Best_clustering_by_h_clust (sim_mat out) ''average'')
      else if c = ''h_clust_comp'' then
        Some (Best_clustering_by_h_clust (sim_mat out) ''complete'')
      else None)"

text \<open>
  The unbound name is first read at line 355 (\<^verbatim>\<open>zip(gene_names, optimal_clusters)\<close>),
  where Python raises \<^verbatim>\<open>NameError\<close>.
\<close>

definition find_optimal ::
  "('g, 'c) collaborators \<Rightarrow> args \<Rightarrow> sampler_out \<Rightarrow> ('c, int list) script" where
  "find_optimal env a out =
     (case select_call (criterion a) out of
        Some sc \<Rightarrow> call (Select sc) (cluster_tools env sc)
      | None \<Rightarrow> lift (Inl NameError))"

subsection \<open>Grouping the genes by cluster (lines 353-357)\<close>

text \<open>
  A \<^verbatim>\<open>defaultdict(list)\<close> is an association list; \<^verbatim>\<open>d[k].append(v)\<close>
  appends to the list stored under \<open>k\<close>, after storing the empty list there when \<open>k\<close> is
  new.
\<close>

definition append_to :: "'k \<Rightarrow> 'v \<Rightarrow> ('k \<times> 'v list) list \<Rightarrow> ('k \<times> 'v list) list" where
  "append_to k v d = AList.map_default k [v] (\<lambda>vs. vs @ [v]) d"

text \<open>
  The body of the loop (lines 356-357): the gene's index goes to the first dictionary, its
  name to the second, both under the gene's cluster id.
\<close>

definition group_step ::
  "(int \<times> nat list) list \<times> (int \<times> string list) list \<Rightarrow> nat \<times> string \<times> int \<Rightarrow>
   (int \<times> nat list) list \<times> (int \<times> string list) list" where
  "group_step dicts item =
     (case dicts of (labels, names) \<Rightarrow>
      case item of (gene, gene_name, cluster) \<Rightarrow>
        (append_to cluster gene labels, append_to cluster gene_name names))"

text \<open>The loop: \<^verbatim>\<open>enumerate(zip(gene_names, optimal_clusters))\<close>, from gene 0.\<close>

definition group_genes ::
  "string list \<Rightarrow> int list \<Rightarrow> (int \<times> nat list) list \<times> (int \<times> string list) list" where
  "group_genes gene_names optimal_clusters =
     foldl group_step ([], []) (List.enumerate 0 (zip gene_names optimal_clusters))"

definition optimal_cluster_labels :: "string list \<Rightarrow> int list \<Rightarrow> (int \<times> nat list) list" where
  "optimal_cluster_labels gene_names optimal_clusters =
     fst (group_genes gene_names optimal_clusters)"

definition optimal_cluster_labels_original_gene_names ::
  "string list \<Rightarrow> int list \<Rightarrow> (int \<times> string list) list" where
  "optimal_cluster_labels_original_gene_names gene_names optimal_clusters =
     snd (group_genes gene_names optimal_clusters)"

subsection \<open>Refitting the selected clusters (lines 359-362)\<close>

text \<open>\<^verbatim>\<open>gene_expression_matrix[genes,:]\<close>: the rows of the listed genes.\<close>

definition take_rows :: "real list list \<Rightarrow> nat list \<Rightarrow> error + real list list" where
  "take_rows M genes =
     (if list_all (\<lambda>g. g < length M) genes then Inr (map (\<lambda>g. M ! g) genes)
      else Inl IndexError)"

definition dp_cluster_args :: "design \<Rightarrow> sampler_out \<Rightarrow> nat list \<Rightarrow> real list list \<Rightarrow> dp_cluster_call" where
  "dp_cluster_args d out genes rows = \<lparr>
     dc_members = genes,
     dc_sigma_n = d_sigma_n d,
     dc_X = map (\<lambda>x. [x]) (d_t d),
     dc_Y = transpose rows,
     dc_iter_num_at_birth = iter_num out \<rparr>"

definition update_args :: "args \<Rightarrow> design \<Rightarrow> sampler_out \<Rightarrow> update_call" where
  "update_args a d out = \<lparr>
     uc_gene_expression_matrix = d_gene_expression_matrix d,
     uc_sigma_n2_shape = d_sigma_n2_shape d,
     uc_sigma_n2_rate = d_sigma_n2_rate d,
     uc_length_scale_mu = length_scale_mu a,
     uc_length_scale_sigma = length_scale_sigma a,
     uc_sigma_f_mu = sigma_f_mu a,
     uc_sigma_f_sigma = sigma_f_sigma a,
     uc_iter_num = iter_num out,
     uc_max_iters = max_iters a,
     uc_optimizer = optimizer a \<rparr>"

text \<open>
  The loop over the items of \<^verbatim>\<open>optimal_cluster_labels\<close>. Each round builds a
  cluster from the members, stores it under the cluster id, optimises it and stores the
  result under the same id; the column of time points is built first in each round. The
  items are taken in the order the ids were first met. Python 2 takes them in the order of
  its hash table, which can differ: the order of the rounds between clusters is the
  model's, and what is proved of the refit says which rounds there are, not in which order
  the program runs them.
\<close>

fun refit ::
  "('g, 'c) collaborators \<Rightarrow> args \<Rightarrow> design \<Rightarrow> sampler_out \<Rightarrow> (int \<times> nat list) list \<Rightarrow>
   (int \<times> 'c) list \<Rightarrow> ('c, (int \<times> 'c) list) script" where
  "refit env a d out [] optimal_clusters_GP = ret optimal_clusters_GP"
| "refit env a d out ((cluster, genes) # items) optimal_clusters_GP =
     then_do (lift (np_vstack (d_t d))) (\<lambda>_.
     then_do (lift (take_rows (d_gene_expression_matrix d) genes)) (\<lambda>rows.
     then_do (call (Dp_cluster cluster (dp_cluster_args d out genes rows))
                (dp_cluster env (dp_cluster_args d out genes rows))) (\<lambda>c.
     then_do (call (Update_cluster_attributes cluster c (update_args a d out))
                (update_cluster_attributes env c (update_args a d out))) (\<lambda>c'.
     refit env a d out items
       (AList.update cluster c' (AList.update cluster c optimal_clusters_GP))))))"

subsection \<open>Reporting (lines 370-373)\<close>

definition report ::
  "('g, 'c) collaborators \<Rightarrow> design \<Rightarrow> sampler_out \<Rightarrow> (int \<times> string list) list \<Rightarrow> string \<Rightarrow>
   ('c, unit) script" where
  "report env d out names_by_cluster prefix =
     then_do (call (Save (Save_posterior_similarity_matrix (sim_mat out) (d_gene_names d) prefix))
                (save env (Save_posterior_similarity_matrix (sim_mat out) (d_gene_names d) prefix)))
       (\<lambda>_.
     then_do (call (Save (Save_clusterings (sampled_clusterings out) prefix))
                (save env (Save_clusterings (sampled_clusterings out) prefix))) (\<lambda>_.
     then_do (call (Save (Save_log_likelihoods (log_likelihoods out) prefix))
                (save env (Save_log_likelihoods (log_likelihoods out) prefix))) (\<lambda>_.
     call (Save (Save_cluster_membership_information names_by_cluster
                   (prefix @ ''_optimal_clustering.txt'')))
          (save env (Save_cluster_membership_information names_by_cluster
                   (prefix @ ''_optimal_clustering.txt''))))))"

subsection \<open>Plotting (lines 381-388)\<close>

text \<open>Python's list indexing: a negative index counts from the end.\<close>

definition py_get :: "'a list \<Rightarrow> int \<Rightarrow> error + 'a" where
  "py_get xs idx =
     (if 0 \<le> idx \<and> idx < int (length xs) then Inr (xs ! nat idx)
      else if idx < 0 \<and> - int (length xs) \<le> idx then Inr (xs ! nat (int (length xs) + idx))
      else Inl IndexError)"

text \<open>The comprehension \<^verbatim>\<open>[gene_names[idx] for idx in sim_mat_key]\<close>.\<close>

fun names_of_key :: "string list \<Rightarrow> int list \<Rightarrow> error + string list" where
  "names_of_key gene_names [] = Inr []"
| "names_of_key gene_names (idx # key) =
     (case py_get gene_names idx of
        Inl e \<Rightarrow> Inl e
      | Inr name \<Rightarrow>
          (case names_of_key gene_names key of Inl e \<Rightarrow> Inl e | Inr names \<Rightarrow> Inr (name # names)))"

text \<open>
  \<^verbatim>\<open>pd.DataFrame(gene_expression_matrix, index=gene_names, columns=t)\<close>: pandas
  raises when the labels do not fit the shape of the matrix.
\<close>

definition expression_frame :: "design \<Rightarrow> error + unit" where
  "expression_frame d =
     (if length (d_gene_names d) = length (d_gene_expression_matrix d) \<and>
         list_all (\<lambda>row. length row = length (d_t d)) (d_gene_expression_matrix d)
      then Inr () else Inl ValueError_length_mismatch)"

definition plots ::
  "('g, 'c) collaborators \<Rightarrow> args \<Rightarrow> design \<Rightarrow> sampler_out \<Rightarrow> (int \<times> 'c) list \<Rightarrow> string \<Rightarrow>
   ('c, unit) script" where
  "plots env a d out optimal_clusters_GP prefix =
     (let types = split_on CHR '','' (plot_types a) in
      then_do (call (Plot_similarity_matrix (sim_mat out) prefix types)
                 (plot_similarity_matrix env (sim_mat out) prefix types)) (\<lambda>sim_mat_key.
      then_do (lift (names_of_key (d_gene_names d) sim_mat_key)) (\<lambda>key_names.
      then_do (call (Save (Save_posterior_similarity_matrix_key key_names prefix))
                 (save env (Save_posterior_similarity_matrix_key key_names prefix))) (\<lambda>_.
      then_do (call (Plot (Plot_cluster_sizes_over_iterations (df_values (all_clusterings out))
                             (burnIn_phaseI (max_num_iterations a))
                             (burnIn_phaseII (max_num_iterations a))
                             (num_empty_clusters a) prefix types))
                 (plot_other env (Plot_cluster_sizes_over_iterations
                             (df_values (all_clusterings out))
                             (burnIn_phaseI (max_num_iterations a))
                             (burnIn_phaseII (max_num_iterations a))
                             (num_empty_clusters a) prefix types))) (\<lambda>_.
      then_do (lift (expression_frame d)) (\<lambda>_.
      call (Plot (Plot_cluster_gene_expression optimal_clusters_GP
                    (d_gene_expression_matrix d) (d_gene_names d) (d_t d)
                    (time_unit a) prefix types))
           (plot_other env (Plot_cluster_gene_expression optimal_clusters_GP
                    (d_gene_expression_matrix d) (d_gene_names d) (d_t d)
                    (time_unit a) prefix types))))))))"

subsection \<open>The whole script\<close>

text \<open>What the module has bound when its last statement is done.\<close>

record 'c outputs =
  o_output_path_prefix :: string
  o_design :: design
  o_sampler_out :: sampler_out
  o_optimal_clusters :: "int list"
  o_optimal_cluster_labels :: "(int \<times> nat list) list"
  o_optimal_cluster_labels_original_gene_names :: "(int \<times> string list) list"
  o_optimal_clusters_GP :: "(int \<times> 'c) list"

text \<open>
  Lines 353-388, everything after the optimal clustering is found: group and refit, report,
  and plot when \<^verbatim>\<open>--plot\<close> is given.
\<close>

definition refit_and_report ::
  "('g, 'c) collaborators \<Rightarrow> args \<Rightarrow> design \<Rightarrow> string \<Rightarrow> sampler_out \<Rightarrow> int list \<Rightarrow>
   ('c, 'c outputs) script" where
  "refit_and_report env a d prefix out optimal_clusters =
     then_do (refit env a d out (optimal_cluster_labels (d_gene_names d) optimal_clusters) [])
       (\<lambda>optimal_clusters_GP.
     then_do (report env d out
                (optimal_cluster_labels_original_gene_names (d_gene_names d) optimal_clusters)
                prefix) (\<lambda>_.
     then_do (if plot a then plots env a d out optimal_clusters_GP prefix else ret ()) (\<lambda>_.
     ret \<lparr> o_output_path_prefix = prefix,
           o_design = d,
           o_sampler_out = out,
           o_optimal_clusters = optimal_clusters,
           o_optimal_cluster_labels = optimal_cluster_labels (d_gene_names d) optimal_clusters,
           o_optimal_cluster_labels_original_gene_names =
             optimal_cluster_labels_original_gene_names (d_gene_names d) optimal_clusters,
           o_optimal_clusters_GP = optimal_clusters_GP \<rparr>)))"

text \<open>Lines 338-388, everything after the sampler has returned.\<close>

definition select_refit_report ::
  "('g, 'c) collaborators \<Rightarrow> args \<Rightarrow> design \<Rightarrow> string \<Rightarrow> sampler_out \<Rightarrow> ('c, 'c outputs) script" where
  "select_refit_report env a d prefix out =
     then_do (find_optimal env a out) (refit_and_report env a d prefix out)"

text \<open>Lines 322-388, from the construction of the sampler on.\<close>

definition cluster_and_report ::
  "('g, 'c) collaborators \<Rightarrow> args \<Rightarrow> design \<Rightarrow> string \<Rightarrow> ('c, 'c outputs) script" where
  "cluster_and_report env a d prefix =
     then_do (run_sampler env a d) (select_refit_report env a d prefix)"

text \<open>
  Lines 297-388, everything after the input is read: rescale the time vector, derive the
  burn-in lengths, and go on with the rescaled design.
\<close>

definition rescale_and_cluster ::
  "('g, 'c) collaborators \<Rightarrow> args \<Rightarrow> string \<Rightarrow> design \<Rightarrow> ('c, 'c outputs) script" where
  "rescale_and_cluster env a prefix d =
     then_do (lift (burnIn (max_num_iterations a))) (\<lambda>_.
     cluster_and_report env a (rescale_t env d) prefix)"

text \<open>
  Lines 268-388: check the arguments, seed numpy's generator with 1234, read the input, and
  go on with what was read.
\<close>

definition main :: "('g, 'c) collaborators \<Rightarrow> args \<Rightarrow> ('c, 'c outputs) script" where
  "main env a =
     then_do (lift (check_arguments a)) (\<lambda>(input, prefix).
     then_do (seed 1234) (\<lambda>_.
     then_do (import_data env a input) (rescale_and_cluster env a prefix)))"

text \<open>
  A run starts with an empty log and the generator in whatever state the process finds it;
  it ends with a result, or the exception that stopped it, and the log of what was done.
\<close>

definition start :: "rng \<Rightarrow> 'c world" where
  "start r = \<lparr> rng = r, trace = [] \<rparr>"

definition run ::
  "('g, 'c) collaborators \<Rightarrow> args \<Rightarrow> rng \<Rightarrow> (error + 'c outputs) \<times> 'c event list" where
  "run env a r = (case main env a (start r) of (res, w) \<Rightarrow> (res, trace w))"

subsection \<open>Phases of a run\<close>

text \<open>
  The sections of the script, in the order of its banners: seeding (0), import (1),
  construction of the sampler (2), sampling (3), selection (4), refit (5), report (6),
  plot (7). The key of the heat map is saved in the plot section.
\<close>

fun phase :: "'c event \<Rightarrow> nat" where
  "phase (Seed _) = 0"
| "phase (Read_gene_expression_matrices _ _ _ _ _) = 1"
| "phase (Gibbs_sampler _) = 2"
| "phase Sampler = 3"
| "phase (Select _) = 4"
| "phase (Dp_cluster _ _) = 5"
| "phase (Update_cluster_attributes _ _ _) = 5"
| "phase (Save (Save_posterior_similarity_matrix_key _ _)) = 7"
| "phase (Save _) = 6"
| "phase (Plot_similarity_matrix _ _ _) = 7"
| "phase (Plot _) = 7"

text \<open>
  A script stays within phases \<open>lo\<close> to \<open>hi\<close> when, however it ends, the events it adds to
  the log are in these phases and in phase order.
\<close>

definition stays_within :: "nat \<Rightarrow> nat \<Rightarrow> ('c, 'a) script \<Rightarrow> bool" where
  "stays_within lo hi p =
     (\<forall>w res w'. p w = (res, w') \<longrightarrow>
        (\<exists>evs. trace w' = trace w @ evs \<and> sorted (map phase evs) \<and>
               list_all (\<lambda>e. lo \<le> phase e \<and> phase e \<le> hi) evs))"

text \<open>
  The events of one round of the refit loop, for a cluster id, its members and the cluster
  object that was built.
\<close>

definition refit_round ::
  "args \<Rightarrow> design \<Rightarrow> sampler_out \<Rightarrow> (int \<times> nat list) \<times> 'c \<Rightarrow> 'c event list" where
  "refit_round a d out item =
     (case item of ((cluster, genes), c) \<Rightarrow>
        [Dp_cluster cluster
           (dp_cluster_args d out genes (map (\<lambda>g. d_gene_expression_matrix d ! g) genes)),
         Update_cluster_attributes cluster c (update_args a d out)])"

text \<open>The four files of the report (lines 370-373), from what the run has bound.\<close>

definition report_events :: "'c outputs \<Rightarrow> 'c event list" where
  "report_events out =
     map Save
       [Save_posterior_similarity_matrix (sim_mat (o_sampler_out out))
          (d_gene_names (o_design out)) (o_output_path_prefix out),
        Save_clusterings (sampled_clusterings (o_sampler_out out)) (o_output_path_prefix out),
        Save_log_likelihoods (log_likelihoods (o_sampler_out out)) (o_output_path_prefix out),
        Save_cluster_membership_information (o_optimal_cluster_labels_original_gene_names out)
          (o_output_path_prefix out @ ''_optimal_clustering.txt'')]"

subsection \<open>What the spec says of the absent functions\<close>



text \<open>
  Modelled from the spec: what the selection functions of
  \<^verbatim>\<open>DP_GP.cluster_tools\<close> return; the module is not in the source at hand. The
  spec: each strategy is ``producing exactly one assignment vector over genes''. For \<open>G\<close>
  genes, a vector that is returned has \<open>G\<close> entries.
\<close>

definition selects_over_genes :: "('g, 'c) collaborators \<Rightarrow> nat \<Rightarrow> bool" where
  "selects_over_genes env G \<longleftrightarrow>
     (\<forall>sc r v r'. cluster_tools env sc r = Inr (v, r') \<longrightarrow> length v = G)"

subsection \<open>An example run\<close>

text \<open>
  Stand-ins for the collaborators, to run the script on: three genes at times 0, 2, 6
  (left as they are by the stand-ins for numpy); a
  sampler that returns one retained sweep; selection functions that put the first two
  genes in cluster 1 and the third in cluster 2; cluster objects that are their member
  lists; saving and plotting that do nothing.
\<close>

definition example_design :: design where
  "example_design = \<lparr>
     d_gene_expression_matrix = [[1, 2, 3], [1, 2, 4], [5, 1, 0]],
     d_gene_names = [''g1'', ''g2'', ''g3''],
     d_sigma_n = None, d_sigma_n2_shape = 12, d_sigma_n2_rate = 2,
     d_t = [Finite False 0 0, Finite False 1 1, Finite False 3 1] \<rparr>"

definition example_sampler_out :: sampler_out where
  "example_sampler_out = \<lparr>
     sim_mat = [[1, 1, 0], [1, 1, 0], [0, 0, 1]],
     all_clusterings = \<lparr> df_columns = [''0'', ''1'', ''2''], df_values = [[1, 1, 2]] \<rparr>,
     sampled_clusterings = \<lparr> df_columns = [''0'', ''1'', ''2''], df_values = [[1, 1, 2]] \<rparr>,
     log_likelihoods = [- 1],
     iter_num = 1 \<rparr>"

definition example_collaborators :: "(unit, nat list) collaborators" where
  "example_collaborators = \<lparr>
     read_gene_expression_matrices = (\<lambda>paths tt nc shape rate r. Inr (example_design, r)),
     gibbs_sampler = (\<lambda>sa r. Inr ((), r)),
     sampler = (\<lambda>GS r. Inr (example_sampler_out, Suc r)),
     cluster_tools = (\<lambda>sc r. Inr ([1, 1, 2], r)),
     dp_cluster = (\<lambda>dc r. Inr (dc_members dc, r)),
     update_cluster_attributes = (\<lambda>c uc r. Inr (c, r)),
     save = (\<lambda>sc r. Inr ((), r)),
     plot_similarity_matrix = (\<lambda>S prefix types r. Inr ([0, 1, 2], r)),
     plot_other = (\<lambda>pc r. Inr ((), r)),
     np_diff = (\<lambda>t. []),
     np_mean = (\<lambda>xs. NaN),
     np_divide = (\<lambda>t c. t) \<rparr>"

definition example_args :: args where
  "example_args = default_args \<lparr>
     gene_expression_matrix := Some ''expr.txt'', output_path_prefix := Some ''out'' \<rparr>"


text \<open>
  The same stand-ins with a sampler whose log-likelihood is the state of the generator it
  starts from.
\<close>

definition noisy_collaborators :: "(unit, nat list) collaborators" where
  "noisy_collaborators = example_collaborators \<lparr>
     sampler := (\<lambda>GS r. Inr (example_sampler_out \<lparr> log_likelihoods := [- real r] \<rparr>, Suc r)) \<rparr>"

text \<open>What the script has bound at the end of the example run.\<close>

definition example_outputs :: "nat list outputs" where
  "example_outputs = \<lparr>
     o_output_path_prefix = ''out'',
     o_design = example_design,
     o_sampler_out = example_sampler_out \<lparr>
       sampled_clusterings := \<lparr> df_columns = [''g1'', ''g2'', ''g3''], df_values = [[1, 1, 2]] \<rparr>,
       all_clusterings := \<lparr> df_columns = [''g1'', ''g2'', ''g3''], df_values = [[1, 1, 2]] \<rparr> \<rparr>,
     o_optimal_clusters = [1, 1, 2],
     o_optimal_cluster_labels = [(1, [0, 1]), (2, [2])],
     o_optimal_cluster_labels_original_gene_names = [(1, [''g1'', ''g2'']), (2, [''g3''])],
     o_optimal_clusters_GP = [(1, [0, 1]), (2, [2])] \<rparr>"

section \<open>Properties\<close>

subsection \<open>Burn-in lengths\<close>

lemma bit_length_0 [simp]: "bit_length 0 = 0"
  by (subst bit_length.simps) simp

lemma bit_length_numeral [simp]:
  "bit_length (numeral k) = Suc (bit_length (numeral k div 2))"
  by (subst bit_length.simps) simp

lemma bit_length_1 [simp]: "bit_length (Suc 0) = 1"
  by (subst bit_length.simps) simp

lemma bit_length_upper: "M < 2 ^ bit_length M"
proof (induction M rule: bit_length.induct)
  case (1 n)
  show ?case
  proof (cases "n = 0")
    case True
    then show ?thesis by simp
  next
    case False
    then have "n div 2 < 2 ^ bit_length (n div 2)" using 1 by simp
    then have "n < 2 * 2 ^ bit_length (n div 2)" by linarith
    then show ?thesis using False by (subst bit_length.simps) simp
  qed
qed

lemma bit_length_lower: "0 < M \<Longrightarrow> 2 ^ (bit_length M - 1) \<le> M"
proof (induction M rule: bit_length.induct)
  case (1 n)
  show ?case
  proof (cases "n div 2 = 0")
    case True
    then have "n = 1" using 1(2) by linarith
    then show ?thesis by (subst bit_length.simps) simp
  next
    case False
    then have ih: "2 ^ (bit_length (n div 2) - 1) \<le> n div 2" using 1 by simp
    have pos: "0 < bit_length (n div 2)" using False by (subst bit_length.simps) simp
    have "bit_length n = Suc (bit_length (n div 2))" using 1(2) by (subst bit_length.simps) simp
    then have "(2::nat) ^ (bit_length n - 1) = 2 * 2 ^ (bit_length (n div 2) - 1)"
      using pos by (cases "bit_length (n div 2)") simp_all
    then show ?thesis using ih by linarith
  qed
qed

lemma round53_bound: "2 ^ 52 * round53 M \<le> (2 ^ 52 + 1) * M"
proof (cases "M < 2 ^ 53")
  case True
  then show ?thesis by (simp add: round53_def)
next
  case False
  define s where "s = bit_length M - 53"
  define q where "q = M div 2 ^ s"
  have bl: "53 < bit_length M"
  proof (rule ccontr)
    assume "\<not> 53 < bit_length M"
    then have "bit_length M \<le> 53" by simp
    then have "(2::nat) ^ bit_length M \<le> 2 ^ 53" by (rule power_increasing) simp
    then show False using bit_length_upper [of M] False by linarith
  qed
  have M0: "0 < M" using False by (cases M) simp_all
  have "bit_length M - 1 = s + 52" using bl by (simp add: s_def)
  then have low: "2 ^ (s + 52) \<le> M" using bit_length_lower [OF M0] by simp
  have qs: "q * 2 ^ s \<le> M" by (simp add: q_def)
  have r: "round53 M \<le> (q + 1) * 2 ^ s"
    using False by (simp add: round53_def Let_def s_def [symmetric] q_def [symmetric])
  have "2 ^ 52 * round53 M \<le> 2 ^ 52 * ((q + 1) * 2 ^ s)" using r by simp
  also have "\<dots> = 2 ^ 52 * (q * 2 ^ s) + 2 ^ (s + 52)" by (simp add: algebra_simps power_add)
  also have "\<dots> \<le> 2 ^ 52 * M + M" using qs low by (simp add: add_mono)
  finally show ?thesis by (simp add: algebra_simps)
qed

lemma float_of_int_nonneg: "0 \<le> k \<Longrightarrow> float_of_int k = int (round53 (nat k))"
  by (cases "k = 0") (simp_all add: float_of_int_def round53_def)

lemma int_of_times_1_2_nonneg:
  "int_of_times_1_2 (int F) = int (round53 (F * 5404319552844595) div 2 ^ 52)"
  by (cases "F = 0") (simp_all add: int_of_times_1_2_def round53_def)

lemma burnIn_phaseI_nonneg:
  assumes "0 \<le> n"
  shows "burnIn_phaseI n =
    int (round53 (round53 (nat (n div 5)) * 5404319552844595) div 2 ^ 52)"
proof -
  have "0 \<le> n div 5" using assms by simp
  then show ?thesis
    by (simp only: burnIn_phaseI_def float_of_int_nonneg int_of_times_1_2_nonneg)
qed

lemma times_1_2_bound: "round53 (round53 k * 5404319552844595) div 2 ^ 52 \<le> 2 * k"
proof -
  define A where "A = (2::nat) ^ 52"
  define B where "B = (2::nat) ^ 52 + 1"
  define c where "c = (5404319552844595::nat)"
  define F where "F = round53 k"
  define R where "R = round53 (F * c)"
  define I where "I = R div A"
  have A0: "0 < A" by (simp add: A_def)
  have a: "A * F \<le> B * k" unfolding A_def B_def F_def by (rule round53_bound)
  have b: "A * R \<le> B * (F * c)" unfolding A_def B_def R_def by (rule round53_bound)
  have i: "I * A \<le> R" by (simp add: I_def)
  have num: "B * B * c \<le> 2 * (A * A * A)" by (simp add: A_def B_def c_def)
  have "A * A * (I * A) \<le> A * A * R" using i by (rule mult_le_mono2)
  also have "\<dots> = A * (A * R)" by (simp add: mult.assoc)
  also have "\<dots> \<le> A * (B * (F * c))" using b by (rule mult_le_mono2)
  also have "\<dots> = (B * c) * (A * F)" by (simp add: mult_ac)
  also have "\<dots> \<le> (B * c) * (B * k)" using a by (rule mult_le_mono2)
  also have "\<dots> = (B * B * c) * k" by (simp add: mult_ac)
  also have "\<dots> \<le> (2 * (A * A * A)) * k" using num by (rule mult_le_mono1)
  finally have "(A * A * A) * I \<le> (A * A * A) * (2 * k)" by (simp add: mult_ac)
  then have "I \<le> 2 * k" using A0 by simp
  then show ?thesis by (simp add: I_def R_def F_def A_def c_def)
qed

lemma burnIn_bounds:
  assumes "0 \<le> n"
  shows "0 \<le> burnIn_phaseI n" and "burnIn_phaseI n * 2 \<le> n"
proof -
  define k where "k = nat (n div 5)"
  have I: "burnIn_phaseI n = int (round53 (round53 k * 5404319552844595) div 2 ^ 52)"
    using burnIn_phaseI_nonneg [OF assms] by (simp add: k_def)
  show "0 \<le> burnIn_phaseI n" unfolding I by simp
  have "int (round53 (round53 k * 5404319552844595) div 2 ^ 52) \<le> int (2 * k)"
    using times_1_2_bound [of k] by (simp only: zle_int)
  moreover have k0: "0 \<le> n div 5" using assms by simp
  ultimately have "burnIn_phaseI n \<le> 2 * (n div 5)" by (simp add: I k_def)
  moreover have "5 * (n div 5) \<le> n" by simp
  ultimately show "burnIn_phaseI n * 2 \<le> n" using k0 by linarith
qed

text \<open>
  C8. For every non-negative \<^verbatim>\<open>max_num_iterations\<close> \<open>n\<close> with \<open>n / 5\<close> below
  \<open>2 ^ 64\<close>, lines 306-308 bind the burn-in lengths without raising: the first is
  \<^verbatim>\<open>int(np.floor(n/5) * 1.2)\<close> as \<^verbatim>\<open>float64\<close> arithmetic computes it, the
  second is twice the first, and \<open>0 \<le> burnIn_phaseI \<le> burnIn_phaseII \<le> n\<close>; these are
  the values the sampler is given. The burn-in can therefore not exceed the budget.
\<close>

theorem burnIn_within_budget:
  assumes "0 \<le> n" and "n div 5 < 2 ^ 64"
  shows "burnIn n = Inr (burnIn_phaseI n, burnIn_phaseII n) \<and>
         burnIn_phaseI n =
           int (round53 (round53 (nat (n div 5)) * 5404319552844595) div 2 ^ 52) \<and>
         burnIn_phaseII n = 2 * burnIn_phaseI n \<and>
         0 \<le> burnIn_phaseI n \<and> burnIn_phaseI n \<le> burnIn_phaseII n \<and> burnIn_phaseII n \<le> n \<and>
         gs_burnIn_phaseI (sampler_call (a\<lparr>max_num_iterations := n\<rparr>) d) = burnIn_phaseI n \<and>
         gs_burnIn_phaseII (sampler_call (a\<lparr>max_num_iterations := n\<rparr>) d) = burnIn_phaseII n \<and>
         gs_burnIn_phaseII (sampler_call (a\<lparr>max_num_iterations := n\<rparr>) d)
           \<le> gs_max_num_iterations (sampler_call (a\<lparr>max_num_iterations := n\<rparr>) d)"
proof -
  note b = burnIn_bounds [OF assms(1)]
  have k: "- (2 ^ 63) \<le> n div 5" using assms(1) by (simp add: order_trans [of _ 0])
  have 0: "burnIn n = Inr (burnIn_phaseI n, burnIn_phaseII n)"
    using k assms(2) by (simp add: burnIn_def np_floor_def burnIn_phaseI_def burnIn_phaseII_def)
  have 1: "burnIn_phaseI n =
           int (round53 (round53 (nat (n div 5)) * 5404319552844595) div 2 ^ 52)"
    by (rule burnIn_phaseI_nonneg [OF assms(1)])
  have 2: "burnIn_phaseII n = 2 * burnIn_phaseI n" by (simp only: burnIn_phaseII_def mult.commute)
  have 3: "burnIn_phaseI n \<le> burnIn_phaseII n" using b(1) unfolding 2 by linarith
  have 4: "burnIn_phaseII n \<le> n" using b(2) unfolding 2 by linarith
  have 5: "gs_burnIn_phaseI (sampler_call (a\<lparr>max_num_iterations := n\<rparr>) d) = burnIn_phaseI n"
    by (simp add: sampler_call_def)
  have 6: "gs_burnIn_phaseII (sampler_call (a\<lparr>max_num_iterations := n\<rparr>) d) = burnIn_phaseII n"
    by (simp add: sampler_call_def)
  have 7: "gs_max_num_iterations (sampler_call (a\<lparr>max_num_iterations := n\<rparr>) d) = n"
    by (simp add: sampler_call_def)
  show ?thesis using 0 1 2 3 4 5 6 b(1) unfolding 7 by (intro conjI) (simp_all only:)
qed

lemma burnIn_1000: "burnIn 1000 = Inr (240, 480)"
  by (simp add: burnIn_def np_floor_def float_of_int_def int_of_times_1_2_def round53_def Let_def)

text \<open>The default budget of 1000 sweeps gives burn-in lengths 240 and 480.\<close>

theorem burnIn_within_budget_witness:
  "(0::int) \<le> 1000 \<and> (1000::int) div 5 < 2 ^ 64 \<and> burnIn 1000 = Inr (240, 480) \<and>
   burnIn_phaseI 1000 = 240 \<and> burnIn_phaseII 1000 = 480 \<and>
   burnIn_phaseI 1000 \<le> burnIn_phaseII 1000 \<and> burnIn_phaseII 1000 \<le> 1000"
  using burnIn_within_budget [of 1000] burnIn_1000 by simp

text \<open>
  With a budget of \<open>5 * 2 ^ 64\<close> sweeps \<^verbatim>\<open>np.floor\<close> raises at line 306: no
  burn-in length is bound and no sampler is constructed.
\<close>

theorem burnIn_raises_beyond_64_bits:
  "(0::int) \<le> 5 * 2 ^ 64 \<and> burnIn (5 * 2 ^ 64) = Inl TypeError_floor"
  by (simp add: burnIn_def np_floor_def)

subsection \<open>Grouping the genes by cluster\<close>

lemma labels_snoc:
  "fst (foldl group_step ([], []) (List.enumerate 0 (ps @ [(nm, k)]))) =
   append_to k (length ps) (fst (foldl group_step ([], []) (List.enumerate 0 ps)))"
  by (simp add: enumerate_append_eq group_step_def split: prod.splits)

lemma labels_keys:
  "fst ` set (fst (foldl group_step ([], []) (List.enumerate 0 ps))) = snd ` set ps"
proof (induction ps rule: rev_induct)
  case Nil
  show ?case by simp
next
  case (snoc p ps)
  obtain nm k where p: "p = (nm, k)" by (cases p)
  show ?case unfolding p labels_snoc append_to_def dom_map_default using snoc by auto
qed

lemma labels_distinct:
  "distinct (map fst (fst (foldl group_step ([], []) (List.enumerate 0 ps))))"
proof (induction ps rule: rev_induct)
  case Nil
  show ?case by simp
next
  case (snoc p ps)
  obtain nm k where p: "p = (nm, k)" by (cases p)
  show ?case unfolding p labels_snoc append_to_def using snoc by (rule distinct_map_default)
qed

lemma labels_total:
  "sum_list (map (\<lambda>p. length (snd p)) (append_to k g L)) = Suc (sum_list (map (\<lambda>p. length (snd p)) L))"
  unfolding append_to_def by (induction L) auto

lemma labels_sum:
  "sum_list (map (\<lambda>p. length (snd p)) (fst (foldl group_step ([], []) (List.enumerate 0 ps)))) = length ps"
proof (induction ps rule: rev_induct)
  case Nil
  show ?case by simp
next
  case (snoc p ps)
  obtain nm k where p: "p = (nm, k)" by (cases p)
  show ?case unfolding p labels_snoc labels_total using snoc by simp
qed

lemma filter_no_member:
  "k \<notin> snd ` set ps \<Longrightarrow> filter (\<lambda>g. snd (ps ! g) = k) [0..<length ps] = []"
  by (auto simp: filter_empty_conv)

lemma labels_members:
  "map_of (fst (foldl group_step ([], []) (List.enumerate 0 ps))) k =
   (if k \<in> snd ` set ps then Some (filter (\<lambda>g. snd (ps ! g) = k) [0..<length ps]) else None)"
proof (induction ps rule: rev_induct)
  case Nil
  show ?case by simp
next
  case (snoc p ps)
  obtain nm k' where p: "p = (nm, k')" by (cases p)
  have f: "filter (\<lambda>g. snd ((ps @ [(nm, k')]) ! g) = k) [0..<length ps] =
           filter (\<lambda>g. snd (ps ! g) = k) [0..<length ps]"
    by (rule filter_cong) (auto simp: nth_append)
  have u: "filter (\<lambda>g. snd ((ps @ [(nm, k')]) ! g) = k) [0..<length (ps @ [(nm, k')])] =
           filter (\<lambda>g. snd (ps ! g) = k) [0..<length ps] @ (if k' = k then [length ps] else [])"
    using f by simp
  have IH: "map_of (fst (foldl group_step ([], []) (List.enumerate 0 ps))) k =
     (if k \<in> snd ` set ps then Some (filter (\<lambda>g. snd (ps ! g) = k) [0..<length ps]) else None)"
    by (rule snoc)
  have goal: "map_of (fst (foldl group_step ([], []) (List.enumerate 0 (ps @ [(nm, k')])))) k =
     (if k \<in> snd ` set (ps @ [(nm, k')])
      then Some (filter (\<lambda>g. snd ((ps @ [(nm, k')]) ! g) = k) [0..<length (ps @ [(nm, k')])])
      else None)"
  proof (cases "k' = k")
    case True
    show ?thesis
      unfolding u labels_snoc append_to_def map_of_map_default
      using True IH filter_no_member [of k ps] by auto
  next
    case False
    show ?thesis
      unfolding u labels_snoc append_to_def map_of_map_default
      using False IH by auto
  qed
  show ?case unfolding p by (rule goal)
qed

text \<open>
  C10. For an assignment vector over the \<open>G\<close> genes, the grouping loop yields a partition
  of the gene indices: the cluster ids of the dictionary are distinct and are exactly the
  ids that occur in the vector; every gene index below \<open>G\<close> is in exactly one member list;
  the lists of different ids are disjoint; the lengths add up to \<open>G\<close>; and each list holds
  the indices of its cluster in increasing order.
\<close>

theorem grouping_is_partition:
  assumes "length optimal_clusters = length gene_names"
  shows "distinct (map fst (optimal_cluster_labels gene_names optimal_clusters)) \<and>
         fst ` set (optimal_cluster_labels gene_names optimal_clusters) = set optimal_clusters \<and>
         (\<forall>g < length gene_names.
            \<exists>!p. p \<in> set (optimal_cluster_labels gene_names optimal_clusters) \<and> g \<in> set (snd p)) \<and>
         (\<forall>p \<in> set (optimal_cluster_labels gene_names optimal_clusters).
          \<forall>q \<in> set (optimal_cluster_labels gene_names optimal_clusters).
            fst p \<noteq> fst q \<longrightarrow> set (snd p) \<inter> set (snd q) = {}) \<and>
         sum_list (map (\<lambda>p. length (snd p)) (optimal_cluster_labels gene_names optimal_clusters))
           = length gene_names \<and>
         (\<forall>p \<in> set (optimal_cluster_labels gene_names optimal_clusters).
            snd p = filter (\<lambda>g. optimal_clusters ! g = fst p) [0..<length gene_names] \<and>
            sorted_wrt (<) (snd p))"
proof -
  define ps where "ps = zip gene_names optimal_clusters"
  define L where "L = optimal_cluster_labels gene_names optimal_clusters"
  define G where "G = length gene_names"
  have L: "L = fst (foldl group_step ([], []) (List.enumerate 0 ps))"
    by (simp add: L_def ps_def optimal_cluster_labels_def group_genes_def)
  have len: "length ps = G" using assms by (simp add: ps_def G_def)
  have keys0: "snd ` set ps = set optimal_clusters"
    using assms by (simp add: ps_def flip: set_map)
  have nth: "\<And>g. g < G \<Longrightarrow> snd (ps ! g) = optimal_clusters ! g"
    using assms by (simp add: ps_def G_def)
  have d: "distinct (map fst L)" unfolding L by (rule labels_distinct)
  have keys: "fst ` set L = set optimal_clusters" unfolding L labels_keys by (rule keys0)
  have fl: "\<And>k. filter (\<lambda>g. snd (ps ! g) = k) [0..<length ps] =
                 filter (\<lambda>g. optimal_clusters ! g = k) [0..<G]"
    unfolding len by (rule filter_cong) (auto simp: nth)
  have mem: "\<And>k ms. (k, ms) \<in> set L \<Longrightarrow> ms = filter (\<lambda>g. optimal_clusters ! g = k) [0..<G]"
  proof -
    fix k ms assume "(k, ms) \<in> set L"
    then have "map_of L k = Some ms" using d by simp
    then show "ms = filter (\<lambda>g. optimal_clusters ! g = k) [0..<G]"
      unfolding L labels_members fl by (simp split: if_splits)
  qed
  have mem': "\<And>p. p \<in> set L \<Longrightarrow> snd p = filter (\<lambda>g. optimal_clusters ! g = fst p) [0..<G]"
    using mem by (metis prod.collapse)
  have one: "\<forall>g < G. \<exists>!p. p \<in> set L \<and> g \<in> set (snd p)"
  proof (intro allI impI)
    fix g assume g: "g < G"
    have "optimal_clusters ! g \<in> fst ` set L" unfolding keys using g assms by (simp add: G_def)
    then obtain p where p: "p \<in> set L" "fst p = optimal_clusters ! g" by auto
    have gp: "g \<in> set (snd p)" using mem' [OF p(1)] p(2) g by simp
    show "\<exists>!p. p \<in> set L \<and> g \<in> set (snd p)"
    proof (rule ex1I [of _ p])
      show "p \<in> set L \<and> g \<in> set (snd p)" using p(1) gp by simp
    next
      fix q assume q: "q \<in> set L \<and> g \<in> set (snd q)"
      then have "fst q = optimal_clusters ! g" using mem' [of q] by auto
      then have "fst q = fst p" using p(2) by simp
      moreover have "(fst q, snd q) \<in> set L" "(fst p, snd p) \<in> set L" using q p(1) by simp_all
      ultimately have "snd q = snd p" using eq_key_imp_eq_value [OF d] by metis
      then show "q = p" using \<open>fst q = fst p\<close> by (simp add: prod_eq_iff)
    qed
  qed
  have disj: "\<forall>p \<in> set L. \<forall>q \<in> set L. fst p \<noteq> fst q \<longrightarrow> set (snd p) \<inter> set (snd q) = {}"
  proof (intro ballI impI)
    fix p q assume "p \<in> set L" "q \<in> set L" "fst p \<noteq> fst q"
    then show "set (snd p) \<inter> set (snd q) = {}" using mem' [of p] mem' [of q] by auto
  qed
  have total: "sum_list (map (\<lambda>p. length (snd p)) L) = G" unfolding L labels_sum by (rule len)
  have srt: "\<forall>p \<in> set L. snd p = filter (\<lambda>g. optimal_clusters ! g = fst p) [0..<G] \<and>
                          sorted_wrt (<) (snd p)"
  proof
    fix p assume p: "p \<in> set L"
    have "sorted_wrt (<) (filter (\<lambda>g. optimal_clusters ! g = fst p) [0..<G])"
      by (rule sorted_wrt_filter) simp
    then show "snd p = filter (\<lambda>g. optimal_clusters ! g = fst p) [0..<G] \<and> sorted_wrt (<) (snd p)"
      using mem' [OF p] by simp
  qed
  show ?thesis using d keys one disj total srt unfolding L_def G_def by blast
qed

text \<open>Three genes in clusters 5, 7, 5: cluster 5 holds genes 0 and 2, cluster 7 gene 1.\<close>

lemma optimal_cluster_labels_example:
  "optimal_cluster_labels [''a'', ''b'', ''c''] [5, 7, 5] = [(5, [0, 2]), (7, [1])]"
  by (simp add: optimal_cluster_labels_def group_genes_def group_step_def append_to_def
      enumerate_eq_zip upt_rec)

theorem grouping_is_partition_witness:
  "length [5, 7, 5 :: int] = length [''a'', ''b'', ''c''] \<and>
   optimal_cluster_labels [''a'', ''b'', ''c''] [5, 7, 5] = [(5, [0, 2]), (7, [1])] \<and>
   distinct (map fst (optimal_cluster_labels [''a'', ''b'', ''c''] [5, 7, 5])) \<and>
   sum_list (map (\<lambda>p. length (snd p)) (optimal_cluster_labels [''a'', ''b'', ''c''] [5, 7, 5])) = 3"
  using grouping_is_partition [of "[5, 7, 5]" "[''a'', ''b'', ''c'']"]
  by (simp add: optimal_cluster_labels_example)

subsection \<open>Sequencing and calls\<close>

lemma then_do_cases:
  assumes "then_do p f w = (res, w')"
  obtains (raised) e where "p w = (Inl e, w')" and "res = Inl e"
        | (returned) v w1 where "p w = (Inr v, w1)" and "f v w1 = (res, w')"
  using assms by (auto simp: then_do_def split: prod.splits sum.splits)

lemma then_do_Inr:
  assumes "then_do p f w = (Inr x, w')"
  obtains v w1 where "p w = (Inr v, w1)" and "f v w1 = (Inr x, w')"
  using assms by (auto simp: then_do_def split: prod.splits sum.splits)

lemma call_trace: "call ev f w = (res, w') \<Longrightarrow> trace w' = trace w @ [ev]"
  by (auto simp: call_def Let_def split: sum.splits prod.splits)

lemma call_Inr:
  "call ev f w = (Inr v, w') \<Longrightarrow> f (rng w) = Inr (v, rng w')"
  by (auto simp: call_def Let_def split: sum.splits prod.splits)

lemma lift_eq: "lift r w = (res, w') \<longleftrightarrow> res = r \<and> w' = w"
  by (auto simp: lift_def)

lemma ret_eq: "ret v w = (res, w') \<longleftrightarrow> res = Inr v \<and> w' = w"
  by (auto simp: ret_def)

subsection \<open>Phase order\<close>

lemma stays_within_ret: "stays_within lo hi (ret v)"
  by (simp add: stays_within_def ret_def)

lemma stays_within_lift: "stays_within lo hi (lift r)"
  by (simp add: stays_within_def lift_def)

lemma stays_within_call: "lo \<le> phase ev \<Longrightarrow> phase ev \<le> hi \<Longrightarrow> stays_within lo hi (call ev f)"
  unfolding stays_within_def by (auto dest: call_trace)

lemma stays_within_seed: "stays_within 0 0 (seed k)"
  by (simp add: stays_within_def seed_def)

lemma stays_within_weaken:
  "stays_within lo hi p \<Longrightarrow> lo' \<le> lo \<Longrightarrow> hi \<le> hi' \<Longrightarrow> stays_within lo' hi' p"
  unfolding stays_within_def list_all_iff by (fastforce)

lemma stays_within_then_do:
  assumes p: "stays_within lo mid p" and f: "\<And>v. stays_within mid hi (f v)"
    and le: "lo \<le> mid" "mid \<le> hi"
  shows "stays_within lo hi (then_do p f)"
  unfolding stays_within_def
proof (intro allI impI)
  fix w res w' assume r: "then_do p f w = (res, w')"
  from r show "\<exists>evs. trace w' = trace w @ evs \<and> sorted (map phase evs) \<and>
                 list_all (\<lambda>e. lo \<le> phase e \<and> phase e \<le> hi) evs"
  proof (cases rule: then_do_cases)
    case (raised e)
    then obtain evs where "trace w' = trace w @ evs" "sorted (map phase evs)"
      "list_all (\<lambda>e. lo \<le> phase e \<and> phase e \<le> mid) evs"
      using p unfolding stays_within_def by blast
    then show ?thesis using le unfolding list_all_iff by fastforce
  next
    case (returned v w1)
    obtain evs1 where 1: "trace w1 = trace w @ evs1" "sorted (map phase evs1)"
      "list_all (\<lambda>e. lo \<le> phase e \<and> phase e \<le> mid) evs1"
      using p returned(1) unfolding stays_within_def by blast
    obtain evs2 where 2: "trace w' = trace w1 @ evs2" "sorted (map phase evs2)"
      "list_all (\<lambda>e. mid \<le> phase e \<and> phase e \<le> hi) evs2"
      using f [of v] returned(2) unfolding stays_within_def by blast
    have "trace w' = trace w @ (evs1 @ evs2)" using 1(1) 2(1) by simp
    moreover have "sorted (map phase (evs1 @ evs2))"
      using 1(2,3) 2(2,3) unfolding list_all_iff by (fastforce simp: sorted_append)
    moreover have "list_all (\<lambda>e. lo \<le> phase e \<and> phase e \<le> hi) (evs1 @ evs2)"
      using 1(3) 2(3) le unfolding list_all_iff by fastforce
    ultimately show ?thesis by blast
  qed
qed

subsection \<open>The stages\<close>

lemma stays_within_import_data: "stays_within 1 1 (import_data env a input)"
  unfolding import_data_def Let_def by (rule stays_within_call) simp_all

lemma stays_within_run_sampler: "stays_within 2 3 (run_sampler env a d)"
  unfolding run_sampler_def
  by (intro stays_within_then_do [where mid = 2 and lo = 2]
        stays_within_then_do [where mid = 3 and lo = 2] stays_within_then_do [where mid = 3 and lo = 3]
        stays_within_call stays_within_lift stays_within_ret) simp_all

lemma stays_within_find_optimal: "stays_within 4 4 (find_optimal env a out)"
  unfolding find_optimal_def
  by (auto split: option.splits intro: stays_within_call stays_within_lift)

lemma stays_within_refit: "stays_within 5 5 (refit env a d out items gp)"
proof (induction items arbitrary: gp)
  case Nil
  show ?case by (simp add: stays_within_ret)
next
  case (Cons item items)
  obtain cluster genes where item: "item = (cluster, genes)" by (cases item)
  show ?case unfolding item refit.simps
    by (intro stays_within_then_do [where mid = 5] stays_within_call stays_within_lift Cons)
       simp_all
qed

lemma stays_within_report: "stays_within 6 6 (report env d out nb prefix)"
  unfolding report_def
  by (intro stays_within_then_do [where mid = 6] stays_within_call) simp_all

lemma stays_within_plots: "stays_within 7 7 (plots env a d out gp prefix)"
  unfolding plots_def Let_def
  by (intro stays_within_then_do [where mid = 7] stays_within_call stays_within_lift) simp_all

lemma stays_within_plot_section:
  "stays_within 6 7 (if plot a then plots env a d out gp prefix else ret ())"
  by (auto intro: stays_within_weaken [OF stays_within_plots] stays_within_ret)

lemma stays_within_refit_and_report:
  fixes env :: "('g, 'c) collaborators"
  shows "stays_within 5 7 (refit_and_report env a d prefix out oc)"
  unfolding refit_and_report_def
proof (rule stays_within_then_do [where mid = 5])
  show "stays_within 5 5 (refit env a d out (optimal_cluster_labels (d_gene_names d) oc) [])"
    by (rule stays_within_refit)
next
  fix gp :: "(int \<times> 'c) list"
  let ?x = "\<lparr> o_output_path_prefix = prefix, o_design = d, o_sampler_out = out,
           o_optimal_clusters = oc,
           o_optimal_cluster_labels = optimal_cluster_labels (d_gene_names d) oc,
           o_optimal_cluster_labels_original_gene_names =
             optimal_cluster_labels_original_gene_names (d_gene_names d) oc,
           o_optimal_clusters_GP = gp \<rparr>"
  have rep: "stays_within 5 6 (report env d out
          (optimal_cluster_labels_original_gene_names (d_gene_names d) oc) prefix)"
    by (rule stays_within_weaken [OF stays_within_report]) simp_all
  have pl: "stays_within 6 7
          (then_do (if plot a then plots env a d out gp prefix else ret ()) (\<lambda>_. ret ?x))"
    by (rule stays_within_then_do [where mid = 7])
       (simp_all add: stays_within_plot_section stays_within_ret)
  show "stays_within 5 7
     (then_do (report env d out
                (optimal_cluster_labels_original_gene_names (d_gene_names d) oc) prefix) (\<lambda>_.
      then_do (if plot a then plots env a d out gp prefix else ret ()) (\<lambda>_. ret ?x)))"
    by (rule stays_within_then_do [where mid = 6, OF rep]) (simp_all add: pl)
qed simp_all

lemma stays_within_select_refit_report:
  "stays_within 3 7 (select_refit_report env a d prefix out)"
  unfolding select_refit_report_def
proof (rule stays_within_then_do [where mid = 4])
  show "stays_within 3 4 (find_optimal env a out)"
    by (rule stays_within_weaken [OF stays_within_find_optimal]) simp_all
  show "\<And>v. stays_within 4 7 (refit_and_report env a d prefix out v)"
    by (rule stays_within_weaken [OF stays_within_refit_and_report]) simp_all
qed simp_all

lemma stays_within_cluster_and_report: "stays_within 2 7 (cluster_and_report env a d prefix)"
  unfolding cluster_and_report_def
  by (rule stays_within_then_do [where mid = 3])
     (simp_all add: stays_within_run_sampler stays_within_select_refit_report)

lemma stays_within_rescale_and_cluster:
  "stays_within 2 7 (rescale_and_cluster env a prefix d)"
  unfolding rescale_and_cluster_def
  by (rule stays_within_then_do [where mid = 2])
     (simp_all add: stays_within_lift stays_within_cluster_and_report)

lemma stays_within_import_cluster:
  "stays_within 1 7 (then_do (import_data env a input) (rescale_and_cluster env a prefix))"
proof (rule stays_within_then_do [where mid = 1])
  show "stays_within 1 1 (import_data env a input)" by (rule stays_within_import_data)
  show "\<And>d. stays_within 1 7 (rescale_and_cluster env a prefix d)"
    by (rule stays_within_weaken [OF stays_within_rescale_and_cluster]) simp_all
qed simp_all

lemma stays_within_after_check:
  "stays_within 0 7
     (then_do (seed 1234) (\<lambda>_. then_do (import_data env a input)
        (rescale_and_cluster env a prefix)))"
proof (rule stays_within_then_do [where mid = 0])
  show "stays_within 0 0 (seed 1234)" by (rule stays_within_seed)
next
  fix u :: unit
  show "stays_within 0 7 (then_do (import_data env a input) (rescale_and_cluster env a prefix))"
    by (rule stays_within_weaken [OF stays_within_import_cluster]) simp_all
qed simp_all

lemma stays_within_main: "stays_within 0 7 (main env a)"
  unfolding main_def
proof (rule stays_within_then_do [where mid = 0])
  show "stays_within 0 0 (lift (check_arguments a))" by (rule stays_within_lift)
next
  fix v :: "string \<times> string"
  show "stays_within 0 7 (case v of (input, prefix) \<Rightarrow>
          then_do (seed 1234) (\<lambda>_. then_do (import_data env a input)
            (rescale_and_cluster env a prefix)))"
    by (cases v) (simp add: stays_within_after_check)
qed simp_all

lemma run_sorted: "sorted (map phase (snd (run env a r)))"
proof -
  obtain res w where m: "main env a (start r) = (res, w)" by (cases "main env a (start r)")
  then obtain evs where "trace w = trace (start r) @ evs" "sorted (map phase evs)"
    using stays_within_main [of env a] unfolding stays_within_def by blast
  then show ?thesis using m by (simp add: run_def start_def)
qed

subsection \<open>What a stage that returns has logged\<close>

lemma import_data_Inr:
  assumes "import_data env a input w = (Inr d, w')"
  shows "trace w' = trace w @ [Read_gene_expression_matrices (split_on CHR '','' input)
           (true_times a) (do_not_mean_center a) (sigma_n2_shape a) (sigma_n2_rate a)]"
    and "read_gene_expression_matrices env (split_on CHR '','' input)
           (true_times a) (do_not_mean_center a) (sigma_n2_shape a) (sigma_n2_rate a) (rng w) =
         Inr (d, rng w')"
  using assms unfolding import_data_def Let_def by (auto dest: call_trace call_Inr)

lemma set_columns_Inr:
  "set_columns names df = Inr df' \<Longrightarrow> df' = df\<lparr>df_columns := names\<rparr>"
  by (auto simp: set_columns_def split: if_splits)

lemma run_sampler_Inr:
  assumes "run_sampler env a d w = (Inr out, w')"
  shows "trace w' = trace w @ [Gibbs_sampler (sampler_call a d), Sampler]"
    and "\<exists>GS r1 out0. gibbs_sampler env (sampler_call a d) (rng w) = Inr (GS, r1) \<and>
           sampler env GS r1 = Inr (out0, rng w') \<and>
           out = out0\<lparr>sampled_clusterings := (sampled_clusterings out0)\<lparr>df_columns := d_gene_names d\<rparr>,
                      all_clusterings := (all_clusterings out0)\<lparr>df_columns := d_gene_names d\<rparr>\<rparr>"
proof -
  from assms obtain GS w1 where 1: "call (Gibbs_sampler (sampler_call a d))
      (gibbs_sampler env (sampler_call a d)) w = (Inr GS, w1)"
    and r1: "then_do (call Sampler (sampler env GS)) (\<lambda>out.
       then_do (lift (set_columns (d_gene_names d) (sampled_clusterings out))) (\<lambda>sampled.
       then_do (lift (set_columns (d_gene_names d) (all_clusterings out))) (\<lambda>all.
       ret (out\<lparr>sampled_clusterings := sampled, all_clusterings := all\<rparr>)))) w1 = (Inr out, w')"
    unfolding run_sampler_def by (rule then_do_Inr) (rule that)
  from r1 obtain out0 w2 where 2: "call Sampler (sampler env GS) w1 = (Inr out0, w2)"
    and r2: "then_do (lift (set_columns (d_gene_names d) (sampled_clusterings out0))) (\<lambda>sampled.
       then_do (lift (set_columns (d_gene_names d) (all_clusterings out0))) (\<lambda>all.
       ret (out0\<lparr>sampled_clusterings := sampled, all_clusterings := all\<rparr>))) w2 = (Inr out, w')"
    by (rule then_do_Inr) (rule that)
  from r2 obtain sampled w3 where 3: "lift (set_columns (d_gene_names d) (sampled_clusterings out0)) w2 = (Inr sampled, w3)"
    and r3: "then_do (lift (set_columns (d_gene_names d) (all_clusterings out0))) (\<lambda>all.
       ret (out0\<lparr>sampled_clusterings := sampled, all_clusterings := all\<rparr>)) w3 = (Inr out, w')"
    by (rule then_do_Inr) (rule that)
  from r3 obtain all w4 where 4: "lift (set_columns (d_gene_names d) (all_clusterings out0)) w3 = (Inr all, w4)"
    and r4: "ret (out0\<lparr>sampled_clusterings := sampled, all_clusterings := all\<rparr>) w4 = (Inr out, w')"
    by (rule then_do_Inr) (rule that)
  have ws: "w3 = w2" "w4 = w3" "w' = w4" using 3 4 r4 by (simp_all add: lift_eq ret_eq)
  have t1: "trace w1 = trace w @ [Gibbs_sampler (sampler_call a d)]" using 1 by (rule call_trace)
  have t2: "trace w2 = trace w1 @ [Sampler]" using 2 by (rule call_trace)
  show "trace w' = trace w @ [Gibbs_sampler (sampler_call a d), Sampler]"
    using t1 t2 ws by simp
  have s: "sampled = (sampled_clusterings out0)\<lparr>df_columns := d_gene_names d\<rparr>"
    using 3 by (simp add: lift_eq set_columns_Inr)
  have al: "all = (all_clusterings out0)\<lparr>df_columns := d_gene_names d\<rparr>"
    using 4 by (simp add: lift_eq set_columns_Inr)
  have o: "out = out0\<lparr>sampled_clusterings := sampled, all_clusterings := all\<rparr>"
    using r4 by (simp add: ret_eq)
  show "\<exists>GS r1 out0. gibbs_sampler env (sampler_call a d) (rng w) = Inr (GS, r1) \<and>
           sampler env GS r1 = Inr (out0, rng w') \<and>
           out = out0\<lparr>sampled_clusterings := (sampled_clusterings out0)\<lparr>df_columns := d_gene_names d\<rparr>,
                      all_clusterings := (all_clusterings out0)\<lparr>df_columns := d_gene_names d\<rparr>\<rparr>"
    using call_Inr [OF 1] call_Inr [OF 2] ws o s al by auto
qed

lemma find_optimal_Inr:
  assumes "find_optimal env a out w = (Inr oc, w')"
  shows "\<exists>sc. select_call (criterion a) out = Some sc \<and> trace w' = trace w @ [Select sc] \<and>
           cluster_tools env sc (rng w) = Inr (oc, rng w')"
  using assms unfolding find_optimal_def
  by (auto split: option.splits simp: lift_eq dest: call_trace call_Inr)

lemma report_Inr:
  assumes "report env d out nb prefix w = (Inr u, w')"
  shows "trace w' = trace w @ map Save
           [Save_posterior_similarity_matrix (sim_mat out) (d_gene_names d) prefix,
            Save_clusterings (sampled_clusterings out) prefix,
            Save_log_likelihoods (log_likelihoods out) prefix,
            Save_cluster_membership_information nb (prefix @ ''_optimal_clustering.txt'')]"
  using assms unfolding report_def
  by (elim then_do_Inr) (auto dest!: call_trace)

lemma plots_trace:
  assumes "(if plot a then plots env a d out gp prefix else ret ()) w = (res, w')"
  shows "\<exists>evs. trace w' = trace w @ evs \<and> list_all (\<lambda>e. phase e = 7) evs \<and>
           (plot a \<or> evs = [])"
proof (cases "plot a")
  case True
  then have "plots env a d out gp prefix w = (res, w')" using assms by simp
  then obtain evs where "trace w' = trace w @ evs"
    "list_all (\<lambda>e. 7 \<le> phase e \<and> phase e \<le> 7) evs"
    using stays_within_plots [of env a d out gp prefix] unfolding stays_within_def by blast
  then show ?thesis using True by (auto simp: list_all_iff)
next
  case False
  then show ?thesis using assms by (simp add: ret_eq)
qed

lemma update_fresh: "k \<notin> fst ` set al \<Longrightarrow> AList.update k v al = al @ [(k, v)]"
  by (induction al) auto

lemma update_twice_fresh:
  "k \<notin> fst ` set al \<Longrightarrow> AList.update k v' (AList.update k v al) = al @ [(k, v')]"
  by (induction al) auto

lemma take_rows_Inr:
  "take_rows M genes = Inr rows \<Longrightarrow> rows = map (\<lambda>g. M ! g) genes \<and> list_all (\<lambda>g. g < length M) genes"
  by (auto simp: take_rows_def split: if_splits)

lemma refit_Inr:
  assumes "refit env a d out items gp0 w = (Inr gp, w')"
    and "distinct (map fst items)" and "fst ` set items \<inter> fst ` set gp0 = {}"
  shows "\<exists>cs cs'. length cs = length items \<and> length cs' = length items \<and>
           trace w' = trace w @ concat (map (refit_round a d out) (zip items cs)) \<and>
           gp = gp0 @ zip (map fst items) cs' \<and>
           list_all2 (\<lambda>item c. list_all (\<lambda>g. g < length (d_gene_expression_matrix d)) (snd item) \<and>
              (\<exists>r r'. dp_cluster env (dp_cluster_args d out (snd item)
                         (map (\<lambda>g. d_gene_expression_matrix d ! g) (snd item))) r = Inr (c, r')))
             items cs \<and>
           list_all2 (\<lambda>c c'. \<exists>r r'. update_cluster_attributes env c (update_args a d out) r = Inr (c', r'))
             cs cs'"
  using assms
proof (induction items arbitrary: gp0 w)
  case Nil
  then show ?case by (simp add: ret_eq)
next
  case (Cons item items)
  obtain cluster genes where item: "item = (cluster, genes)" by (cases item)
  let ?M = "d_gene_expression_matrix d"
  have run0: "then_do (lift (np_vstack (d_t d))) (\<lambda>_.
     then_do (lift (take_rows ?M genes)) (\<lambda>rows.
     then_do (call (Dp_cluster cluster (dp_cluster_args d out genes rows))
                (dp_cluster env (dp_cluster_args d out genes rows))) (\<lambda>c.
     then_do (call (Update_cluster_attributes cluster c (update_args a d out))
                (update_cluster_attributes env c (update_args a d out))) (\<lambda>c'.
     refit env a d out items
       (AList.update cluster c' (AList.update cluster c gp0)))))) w = (Inr gp, w')"
    using Cons.prems(1) unfolding item by simp
  from run0 obtain X w0 where 0: "lift (np_vstack (d_t d)) w = (Inr X, w0)"
    and run: "then_do (lift (take_rows ?M genes)) (\<lambda>rows.
     then_do (call (Dp_cluster cluster (dp_cluster_args d out genes rows))
                (dp_cluster env (dp_cluster_args d out genes rows))) (\<lambda>c.
     then_do (call (Update_cluster_attributes cluster c (update_args a d out))
                (update_cluster_attributes env c (update_args a d out))) (\<lambda>c'.
     refit env a d out items
       (AList.update cluster c' (AList.update cluster c gp0))))) w0 = (Inr gp, w')"
    by (rule then_do_Inr) (rule that)
  have w0: "w0 = w" using 0 by (simp add: lift_eq)
  from run [unfolded w0] obtain rows w1 where 1: "lift (take_rows ?M genes) w = (Inr rows, w1)"
    and r1: "then_do (call (Dp_cluster cluster (dp_cluster_args d out genes rows))
                (dp_cluster env (dp_cluster_args d out genes rows))) (\<lambda>c.
     then_do (call (Update_cluster_attributes cluster c (update_args a d out))
                (update_cluster_attributes env c (update_args a d out))) (\<lambda>c'.
     refit env a d out items
       (AList.update cluster c' (AList.update cluster c gp0)))) w1 = (Inr gp, w')"
    by (rule then_do_Inr) (rule that)
  from r1 obtain c w2 where 2: "call (Dp_cluster cluster (dp_cluster_args d out genes rows))
                (dp_cluster env (dp_cluster_args d out genes rows)) w1 = (Inr c, w2)"
    and r2: "then_do (call (Update_cluster_attributes cluster c (update_args a d out))
                (update_cluster_attributes env c (update_args a d out))) (\<lambda>c'.
     refit env a d out items
       (AList.update cluster c' (AList.update cluster c gp0))) w2 = (Inr gp, w')"
    by (rule then_do_Inr) (rule that)
  from r2 obtain c' w3 where 3: "call (Update_cluster_attributes cluster c (update_args a d out))
                (update_cluster_attributes env c (update_args a d out)) w2 = (Inr c', w3)"
    and r3: "refit env a d out items
       (AList.update cluster c' (AList.update cluster c gp0)) w3 = (Inr gp, w')"
    by (rule then_do_Inr) (rule that)
  have w1: "w1 = w" and rows: "rows = map (\<lambda>g. ?M ! g) genes"
    and inrange: "list_all (\<lambda>g. g < length ?M) genes"
    using 1 take_rows_Inr [of ?M genes rows] by (simp_all add: lift_eq)
  have fresh: "cluster \<notin> fst ` set gp0" using Cons.prems(3) by (auto simp: item)
  have gp1: "AList.update cluster c' (AList.update cluster c gp0) = gp0 @ [(cluster, c')]"
    using fresh by (rule update_twice_fresh)
  have d': "distinct (map fst items)" using Cons.prems(2) by simp
  have disj: "fst ` set items \<inter> fst ` set (gp0 @ [(cluster, c')]) = {}"
    using Cons.prems(2,3) by (auto simp: item)
  from Cons.IH [OF r3 [unfolded gp1] d' disj]
  obtain cs cs' where IH: "length cs = length items" "length cs' = length items"
    "trace w' = trace w3 @ concat (map (refit_round a d out) (zip items cs))"
    "gp = (gp0 @ [(cluster, c')]) @ zip (map fst items) cs'"
    "list_all2 (\<lambda>item c. list_all (\<lambda>g. g < length ?M) (snd item) \<and>
              (\<exists>r r'. dp_cluster env (dp_cluster_args d out (snd item)
                         (map (\<lambda>g. ?M ! g) (snd item))) r = Inr (c, r'))) items cs"
    "list_all2 (\<lambda>c c'. \<exists>r r'. update_cluster_attributes env c (update_args a d out) r = Inr (c', r'))
             cs cs'"
    by blast
  have t2: "trace w2 = trace w @ [Dp_cluster cluster (dp_cluster_args d out genes rows)]"
    using call_trace [OF 2] w1 by simp
  have t3: "trace w3 = trace w2 @ [Update_cluster_attributes cluster c (update_args a d out)]"
    using 3 by (rule call_trace)
  have tr: "trace w' = trace w @ concat (map (refit_round a d out) (zip (item # items) (c # cs)))"
    using IH(3) t2 t3 by (simp add: item refit_round_def rows)
  have gp: "gp = gp0 @ zip (map fst (item # items)) (c' # cs')" using IH(4) by (simp add: item)
  have b: "\<exists>r r'. dp_cluster env (dp_cluster_args d out genes (map (\<lambda>g. ?M ! g) genes)) r = Inr (c, r')"
    using call_Inr [OF 2] rows by blast
  have u: "\<exists>r r'. update_cluster_attributes env c (update_args a d out) r = Inr (c', r')"
    using call_Inr [OF 3] by blast
  have l1: "list_all2 (\<lambda>item c. list_all (\<lambda>g. g < length ?M) (snd item) \<and>
              (\<exists>r r'. dp_cluster env (dp_cluster_args d out (snd item)
                         (map (\<lambda>g. ?M ! g) (snd item))) r = Inr (c, r'))) (item # items) (c # cs)"
    using IH(5) b inrange by (simp add: item)
  have l2: "list_all2 (\<lambda>c c'. \<exists>r r'. update_cluster_attributes env c (update_args a d out) r = Inr (c', r'))
             (c # cs) (c' # cs')"
    using IH(6) u by simp
  show ?case
    apply (rule exI [of _ "c # cs"])
    apply (rule exI [of _ "c' # cs'"])
    using IH(1,2) tr gp l1 l2 by simp
qed

subsection \<open>The run as a whole\<close>

lemma then_do_lift:
  "then_do (lift r) f w = (case r of Inl e \<Rightarrow> (Inl e, w) | Inr v \<Rightarrow> f v w)"
  by (simp add: then_do_def lift_def split: sum.splits)

lemma then_do_seed: "then_do (seed k) f w = f () (w\<lparr>rng := k, trace := trace w @ [Seed k]\<rparr>)"
  by (simp add: then_do_def seed_def)

lemma run_unfold:
  "run env a r =
     (case check_arguments a of
        Inl e \<Rightarrow> (Inl e, [])
      | Inr (input, prefix) \<Rightarrow>
          (case then_do (import_data env a input) (rescale_and_cluster env a prefix)
                  \<lparr>rng = 1234, trace = [Seed 1234]\<rparr> of
             (res, w) \<Rightarrow> (res, trace w)))"
  by (simp add: run_def main_def start_def then_do_lift then_do_seed
      split: sum.splits prod.splits)

lemma burnIn_Inr:
  "burnIn n = Inr b \<Longrightarrow> burnIn n = Inr (burnIn_phaseI n, burnIn_phaseII n)"
  by (auto simp: burnIn_def np_floor_def burnIn_phaseI_def burnIn_phaseII_def
      split: if_splits)

lemma run_rejected: "check_arguments a = Inl e \<Longrightarrow> run env a r = (Inl e, [])"
  by (simp add: run_unfold)

lemma run_any_rng: "run env a r1 = run env a r2"
  by (simp add: run_unfold)

lemma run_sampler_any:
  assumes "run_sampler env a d w = (res, w')"
  shows "\<exists>evs. trace w' = trace w @ Gibbs_sampler (sampler_call a d) # evs \<and>
           list_all (\<lambda>e. phase e = 3) evs"
  using assms unfolding run_sampler_def
proof (cases rule: then_do_cases)
  case (raised e)
  then show ?thesis by (auto dest: call_trace)
next
  case (returned GS w1)
  have "stays_within 3 3 (then_do (call Sampler (sampler env GS)) (\<lambda>out.
     then_do (lift (set_columns (d_gene_names d) (sampled_clusterings out))) (\<lambda>sampled.
     then_do (lift (set_columns (d_gene_names d) (all_clusterings out))) (\<lambda>all.
     ret (out\<lparr>sampled_clusterings := sampled, all_clusterings := all\<rparr>)))))"
    by (intro stays_within_then_do [where mid = 3] stays_within_call stays_within_lift
        stays_within_ret) simp_all
  then obtain evs where "trace w' = trace w1 @ evs"
    "list_all (\<lambda>e. 3 \<le> phase e \<and> phase e \<le> 3) evs"
    using returned(2) unfolding stays_within_def by blast
  moreover have "trace w1 = trace w @ [Gibbs_sampler (sampler_call a d)]"
    using returned(1) by (rule call_trace)
  ultimately show ?thesis by (auto simp: list_all_iff)
qed

lemma cluster_and_report_any:
  assumes "cluster_and_report env a d prefix w = (res, w')"
  shows "\<exists>evs. trace w' = trace w @ Gibbs_sampler (sampler_call a d) # evs \<and>
           list_all (\<lambda>e. 3 \<le> phase e) evs"
  using assms unfolding cluster_and_report_def
proof (cases rule: then_do_cases)
  case (raised e)
  then show ?thesis using run_sampler_any [of env a d w "Inl e" w'] by (auto simp: list_all_iff)
next
  case (returned out w1)
  obtain evs1 where 1: "trace w1 = trace w @ Gibbs_sampler (sampler_call a d) # evs1"
    "list_all (\<lambda>e. phase e = 3) evs1"
    using run_sampler_any [OF returned(1)] by blast
  obtain evs2 where 2: "trace w' = trace w1 @ evs2"
    "list_all (\<lambda>e. 3 \<le> phase e \<and> phase e \<le> 7) evs2"
    using stays_within_select_refit_report [of env a d prefix out] returned(2)
    unfolding stays_within_def by blast
  have "trace w' = trace w @ Gibbs_sampler (sampler_call a d) # (evs1 @ evs2)"
    using 1(1) 2(1) by simp
  moreover have "list_all (\<lambda>e. 3 \<le> phase e) (evs1 @ evs2)"
    using 1(2) 2(2) by (auto simp: list_all_iff)
  ultimately show ?thesis by blast
qed

lemma run_reaches_sampler:
  assumes "check_arguments a = Inr (input, prefix)"
    and "read_gene_expression_matrices env (split_on CHR '','' input) (true_times a)
           (do_not_mean_center a) (sigma_n2_shape a) (sigma_n2_rate a) 1234 = Inr (d, r1)"
    and "burnIn (max_num_iterations a) = Inr b"
  shows "\<exists>evs. snd (run env a r) =
           [Seed 1234,
            Read_gene_expression_matrices (split_on CHR '','' input) (true_times a)
              (do_not_mean_center a) (sigma_n2_shape a) (sigma_n2_rate a),
            Gibbs_sampler (sampler_call a (rescale_t env d))] @ evs \<and>
           list_all (\<lambda>e. 3 \<le> phase e) evs"
proof -
  note bi = assms(3)
  let ?rd = "Read_gene_expression_matrices (split_on CHR '','' input) (true_times a)
              (do_not_mean_center a) (sigma_n2_shape a) (sigma_n2_rate a)"
  let ?w1 = "\<lparr>rng = r1, trace = [Seed 1234, ?rd]\<rparr> :: 'b world"
  have imp: "import_data env a input \<lparr>rng = 1234, trace = [Seed 1234]\<rparr> = (Inr d, ?w1)"
    using assms(2) by (simp add: import_data_def call_def Let_def)
  obtain res w' where c: "cluster_and_report env a (rescale_t env d) prefix ?w1 = (res, w')"
    by (cases "cluster_and_report env a (rescale_t env d) prefix ?w1")
  have r: "run env a r = (res, trace w')"
    using assms(1) imp c bi by (simp add: run_unfold then_do_def rescale_and_cluster_def lift_def)
  from cluster_and_report_any [OF c] obtain evs where
    "trace w' = trace ?w1 @ Gibbs_sampler (sampler_call a (rescale_t env d)) # evs"
    "list_all (\<lambda>e. 3 \<le> phase e) evs" by blast
  then show ?thesis using r by simp
qed

subsection \<open>A run that completes\<close>

lemma select_refit_report_Inr:
  assumes "select_refit_report env a d prefix out w = (Inr x, w')"
  shows "\<exists>sc cs cs' plot_evs.
     o_output_path_prefix x = prefix \<and> o_design x = d \<and> o_sampler_out x = out \<and>
     o_optimal_cluster_labels x =
       optimal_cluster_labels (d_gene_names d) (o_optimal_clusters x) \<and>
     o_optimal_cluster_labels_original_gene_names x =
       optimal_cluster_labels_original_gene_names (d_gene_names d) (o_optimal_clusters x) \<and>
     select_call (criterion a) out = Some sc \<and>
     (\<exists>r r'. cluster_tools env sc r = Inr (o_optimal_clusters x, r')) \<and>
     length cs = length (o_optimal_cluster_labels x) \<and>
     length cs' = length (o_optimal_cluster_labels x) \<and>
     o_optimal_clusters_GP x = zip (map fst (o_optimal_cluster_labels x)) cs' \<and>
     list_all2 (\<lambda>item c. list_all (\<lambda>g. g < length (d_gene_expression_matrix d)) (snd item) \<and>
        (\<exists>r r'. dp_cluster env (dp_cluster_args d out (snd item)
                   (map (\<lambda>g. d_gene_expression_matrix d ! g) (snd item))) r = Inr (c, r')))
       (o_optimal_cluster_labels x) cs \<and>
     list_all2 (\<lambda>c c'. \<exists>r r'. update_cluster_attributes env c (update_args a d out) r = Inr (c', r'))
       cs cs' \<and>
     trace w' = trace w @ [Select sc] @
       concat (map (refit_round a d out) (zip (o_optimal_cluster_labels x) cs)) @
       report_events x @ plot_evs \<and>
     list_all (\<lambda>e. phase e = 7) plot_evs \<and> (plot a \<or> plot_evs = [])"
proof -
  let ?L = "\<lambda>oc. optimal_cluster_labels (d_gene_names d) oc"
  let ?N = "\<lambda>oc. optimal_cluster_labels_original_gene_names (d_gene_names d) oc"
  let ?X = "\<lambda>oc gp. \<lparr> o_output_path_prefix = prefix, o_design = d, o_sampler_out = out,
           o_optimal_clusters = oc, o_optimal_cluster_labels = ?L oc,
           o_optimal_cluster_labels_original_gene_names = ?N oc,
           o_optimal_clusters_GP = gp \<rparr>"
  from assms obtain oc w1 where 1: "find_optimal env a out w = (Inr oc, w1)"
    and r0: "refit_and_report env a d prefix out oc w1 = (Inr x, w')"
    unfolding select_refit_report_def by (rule then_do_Inr) (rule that)
  have r1: "then_do (refit env a d out (?L oc) []) (\<lambda>gp.
       then_do (report env d out (?N oc) prefix) (\<lambda>_.
       then_do (if plot a then plots env a d out gp prefix else ret ()) (\<lambda>_.
       ret (?X oc gp)))) w1 = (Inr x, w')"
    using r0 unfolding refit_and_report_def .
  from r1 obtain gp w2 where 2: "refit env a d out (?L oc) [] w1 = (Inr gp, w2)"
    and r2: "then_do (report env d out (?N oc) prefix) (\<lambda>_.
       then_do (if plot a then plots env a d out gp prefix else ret ()) (\<lambda>_.
       ret (?X oc gp))) w2 = (Inr x, w')"
    by (rule then_do_Inr) (rule that)
  from r2 obtain u w3 where 3: "report env d out (?N oc) prefix w2 = (Inr u, w3)"
    and r3: "then_do (if plot a then plots env a d out gp prefix else ret ()) (\<lambda>_.
       ret (?X oc gp)) w3 = (Inr x, w')"
    by (rule then_do_Inr) (rule that)
  from r3 obtain u' w4 where 4: "(if plot a then plots env a d out gp prefix else ret ()) w3 = (Inr u', w4)"
    and r4: "ret (?X oc gp) w4 = (Inr x, w')"
    by (rule then_do_Inr) (rule that)
  have x: "x = ?X oc gp" and w4: "w' = w4" using r4 by (simp_all add: ret_eq)
  obtain sc where sc: "select_call (criterion a) out = Some sc"
    "trace w1 = trace w @ [Select sc]" "cluster_tools env sc (rng w) = Inr (oc, rng w1)"
    using find_optimal_Inr [OF 1] by blast
  have dist: "distinct (map fst (?L oc))"
    unfolding optimal_cluster_labels_def group_genes_def by (rule labels_distinct)
  obtain cs cs' where rf: "length cs = length (?L oc)" "length cs' = length (?L oc)"
    "trace w2 = trace w1 @ concat (map (refit_round a d out) (zip (?L oc) cs))"
    "gp = [] @ zip (map fst (?L oc)) cs'"
    "list_all2 (\<lambda>item c. list_all (\<lambda>g. g < length (d_gene_expression_matrix d)) (snd item) \<and>
        (\<exists>r r'. dp_cluster env (dp_cluster_args d out (snd item)
                   (map (\<lambda>g. d_gene_expression_matrix d ! g) (snd item))) r = Inr (c, r')))
       (?L oc) cs"
    "list_all2 (\<lambda>c c'. \<exists>r r'. update_cluster_attributes env c (update_args a d out) r = Inr (c', r'))
       cs cs'"
    using refit_Inr [OF 2 dist] by auto
  have t3: "trace w3 = trace w2 @ report_events x"
    using report_Inr [OF 3] by (simp add: report_events_def x)
  obtain plot_evs where pl: "trace w4 = trace w3 @ plot_evs"
    "list_all (\<lambda>e. phase e = 7) plot_evs" "plot a \<or> plot_evs = []"
    using plots_trace [OF 4] by blast
  have tr: "trace w' = trace w @ [Select sc] @
       concat (map (refit_round a d out) (zip (?L oc) cs)) @ report_events x @ plot_evs"
    using sc(2) rf(3) t3 pl(1) w4 by simp
  have ct: "\<exists>r r'. cluster_tools env sc r = Inr (oc, r')" using sc(3) by blast
  show ?thesis
    apply (rule exI [of _ sc])
    apply (rule exI [of _ cs])
    apply (rule exI [of _ cs'])
    apply (rule exI [of _ plot_evs])
    using sc(1) ct rf(1,2,4,5,6) tr pl(2,3) by (simp add: x)
qed

lemma example_labels:
  "optimal_cluster_labels [''g1'', ''g2'', ''g3''] [1, 1, 2] = [(1, [0, 1]), (2, [2])]"
  "optimal_cluster_labels_original_gene_names [''g1'', ''g2'', ''g3''] [1, 1, 2] =
     [(1, [''g1'', ''g2'']), (2, [''g3''])]"
  by (simp_all add: optimal_cluster_labels_def optimal_cluster_labels_original_gene_names_def
      group_genes_def group_step_def append_to_def enumerate_eq_zip upt_rec)

lemma example_check:
  "gene_expression_matrix a = Some ''expr.txt'' \<Longrightarrow> output_path_prefix a = Some ''out'' \<Longrightarrow>
   criterion a = ''MAP'' \<Longrightarrow> check_arguments a = Inr (''expr.txt'', ''out'')"
  by (simp add: check_arguments_def valid_criteria_def)

lemma rescale_t_example: "rescale_t example_collaborators d = d"
  by (simp add: rescale_t_def example_collaborators_def)

lemma np_vstack_example: "np_vstack (d_t example_design) =
    Inr [[Finite False 0 0], [Finite False 1 1], [Finite False 3 1]]"
  by (simp add: np_vstack_def example_design_def)

lemma example_run:
  assumes "gene_expression_matrix a = Some ''expr.txt''" "output_path_prefix a = Some ''out''"
    "criterion a = ''MAP''" "\<not> plot a" "burnIn (max_num_iterations a) = Inr b"
  shows "run example_collaborators a r =
    (Inr example_outputs,
     [Seed 1234,
      Read_gene_expression_matrices [''expr.txt''] (true_times a) (do_not_mean_center a)
        (sigma_n2_shape a) (sigma_n2_rate a),
      Gibbs_sampler (sampler_call a example_design),
      Sampler,
      Select (Best_clustering_by_log_likelihood [[1, 1, 2]] [- 1]),
      Dp_cluster 1 (dp_cluster_args example_design (o_sampler_out example_outputs) [0, 1]
        [[1, 2, 3], [1, 2, 4]]),
      Update_cluster_attributes 1 [0, 1]
        (update_args a example_design (o_sampler_out example_outputs)),
      Dp_cluster 2 (dp_cluster_args example_design (o_sampler_out example_outputs) [2]
        [[5, 1, 0]]),
      Update_cluster_attributes 2 [2]
        (update_args a example_design (o_sampler_out example_outputs))] @
     report_events example_outputs)"
proof -
  have dc: "\<And>d out genes rows. dc_members (dp_cluster_args d out genes rows) = genes"
    by (simp add: dp_cluster_args_def)
  show ?thesis
    using assms(4)
    by (simp add: run_unfold example_check [OF assms(1-3)] import_data_def call_def Let_def
      then_do_def rescale_and_cluster_def assms(5)
      rescale_t_def np_vstack_example
      cluster_and_report_def run_sampler_def select_refit_report_def
      refit_and_report_def
      find_optimal_def select_call_def assms(3) lift_def ret_def set_columns_def
      example_collaborators_def example_labels report_def take_rows_def dc
      report_events_def example_outputs_def
      example_design_def [THEN arg_cong, of d_gene_names]
      example_design_def [THEN arg_cong, of d_gene_expression_matrix]
      example_sampler_out_def)
qed

lemma run_Inr:
  fixes x :: "'c outputs"
  assumes "run env a r = (Inr x, tr)"
  shows "\<exists>input d0 r1 sc cs cs' plot_evs.
     check_arguments a = Inr (input, o_output_path_prefix x) \<and>
     read_gene_expression_matrices env (split_on CHR '','' input) (true_times a)
       (do_not_mean_center a) (sigma_n2_shape a) (sigma_n2_rate a) 1234 = Inr (d0, r1) \<and>
     o_design x = rescale_t env d0 \<and>
     burnIn (max_num_iterations a) =
       Inr (burnIn_phaseI (max_num_iterations a), burnIn_phaseII (max_num_iterations a)) \<and>
     (\<exists>GS r2 r3 out0. gibbs_sampler env (sampler_call a (o_design x)) r1 = Inr (GS, r2) \<and>
        sampler env GS r2 = Inr (out0, r3) \<and>
        o_sampler_out x = out0\<lparr>
          sampled_clusterings := (sampled_clusterings out0)\<lparr>df_columns := d_gene_names (o_design x)\<rparr>,
          all_clusterings := (all_clusterings out0)\<lparr>df_columns := d_gene_names (o_design x)\<rparr>\<rparr>) \<and>
     o_optimal_cluster_labels x =
       optimal_cluster_labels (d_gene_names (o_design x)) (o_optimal_clusters x) \<and>
     o_optimal_cluster_labels_original_gene_names x =
       optimal_cluster_labels_original_gene_names (d_gene_names (o_design x)) (o_optimal_clusters x) \<and>
     select_call (criterion a) (o_sampler_out x) = Some sc \<and>
     (\<exists>r r'. cluster_tools env sc r = Inr (o_optimal_clusters x, r')) \<and>
     length cs = length (o_optimal_cluster_labels x) \<and>
     length cs' = length (o_optimal_cluster_labels x) \<and>
     o_optimal_clusters_GP x = zip (map fst (o_optimal_cluster_labels x)) cs' \<and>
     list_all2 (\<lambda>item c.
        list_all (\<lambda>g. g < length (d_gene_expression_matrix (o_design x))) (snd item) \<and>
        (\<exists>r r'. dp_cluster env (dp_cluster_args (o_design x) (o_sampler_out x) (snd item)
                   (map (\<lambda>g. d_gene_expression_matrix (o_design x) ! g) (snd item))) r =
                 Inr (c, r')))
       (o_optimal_cluster_labels x) cs \<and>
     list_all2 (\<lambda>c c'. \<exists>r r'. update_cluster_attributes env c
                  (update_args a (o_design x) (o_sampler_out x)) r = Inr (c', r'))
       cs cs' \<and>
     tr = [Seed 1234,
           Read_gene_expression_matrices (split_on CHR '','' input) (true_times a)
             (do_not_mean_center a) (sigma_n2_shape a) (sigma_n2_rate a),
           Gibbs_sampler (sampler_call a (o_design x)), Sampler, Select sc] @
          concat (map (refit_round a (o_design x) (o_sampler_out x))
                    (zip (o_optimal_cluster_labels x) cs)) @
          report_events x @ plot_evs \<and>
     list_all (\<lambda>e. phase e = 7) plot_evs \<and> (plot a \<or> plot_evs = [])"
proof -
  obtain input prefix where chk: "check_arguments a = Inr (input, prefix)"
    using assms by (cases "check_arguments a") (auto simp: run_unfold)
  let ?w0 = "\<lparr>rng = 1234, trace = [Seed 1234]\<rparr> :: 'c world"
  obtain w where m: "then_do (import_data env a input) (rescale_and_cluster env a prefix) ?w0
      = (Inr x, w)" and tr: "tr = trace w"
    using assms chk by (auto simp: run_unfold split: prod.splits)
  from m obtain d0 w1 where 1: "import_data env a input ?w0 = (Inr d0, w1)"
    and c0: "rescale_and_cluster env a prefix d0 w1 = (Inr x, w)"
    by (rule then_do_Inr) (rule that)
  define d where "d = rescale_t env d0"
  from c0 obtain b w1' where bi0: "lift (burnIn (max_num_iterations a)) w1 = (Inr b, w1')"
    and c': "cluster_and_report env a (rescale_t env d0) prefix w1' = (Inr x, w)"
    unfolding rescale_and_cluster_def by (rule then_do_Inr) (rule that)
  have bi: "burnIn (max_num_iterations a) =
       Inr (burnIn_phaseI (max_num_iterations a), burnIn_phaseII (max_num_iterations a))"
    using bi0 by (rule_tac burnIn_Inr [of _ b]) (simp add: lift_eq)
  have c: "cluster_and_report env a d prefix w1 = (Inr x, w)"
    using c' bi0 by (simp add: lift_eq d_def)
  from c obtain out w2 where 2: "run_sampler env a d w1 = (Inr out, w2)"
    and 3: "select_refit_report env a d prefix out w2 = (Inr x, w)"
    unfolding cluster_and_report_def by (rule then_do_Inr) (rule that)
  have t1: "trace w1 = [Seed 1234, Read_gene_expression_matrices (split_on CHR '','' input)
           (true_times a) (do_not_mean_center a) (sigma_n2_shape a) (sigma_n2_rate a)]"
    and rd: "read_gene_expression_matrices env (split_on CHR '','' input)
           (true_times a) (do_not_mean_center a) (sigma_n2_shape a) (sigma_n2_rate a) 1234 =
         Inr (d0, rng w1)"
    using import_data_Inr [OF 1] by simp_all
  have t2: "trace w2 = trace w1 @ [Gibbs_sampler (sampler_call a d), Sampler]"
    using run_sampler_Inr(1) [OF 2] .
  obtain GS r2 out0 where gs: "gibbs_sampler env (sampler_call a d) (rng w1) = Inr (GS, r2)"
    "sampler env GS r2 = Inr (out0, rng w2)"
    "out = out0\<lparr>sampled_clusterings := (sampled_clusterings out0)\<lparr>df_columns := d_gene_names d\<rparr>,
                all_clusterings := (all_clusterings out0)\<lparr>df_columns := d_gene_names d\<rparr>\<rparr>"
    using run_sampler_Inr(2) [OF 2] by blast
  from select_refit_report_Inr [OF 3] obtain sc cs cs' plot_evs where s:
    "o_output_path_prefix x = prefix" "o_design x = d" "o_sampler_out x = out"
    "o_optimal_cluster_labels x =
       optimal_cluster_labels (d_gene_names d) (o_optimal_clusters x)"
    "o_optimal_cluster_labels_original_gene_names x =
       optimal_cluster_labels_original_gene_names (d_gene_names d) (o_optimal_clusters x)"
    "select_call (criterion a) out = Some sc"
    "\<exists>r r'. cluster_tools env sc r = Inr (o_optimal_clusters x, r')"
    "length cs = length (o_optimal_cluster_labels x)"
    "length cs' = length (o_optimal_cluster_labels x)"
    "o_optimal_clusters_GP x = zip (map fst (o_optimal_cluster_labels x)) cs'"
    "list_all2 (\<lambda>item c. list_all (\<lambda>g. g < length (d_gene_expression_matrix d)) (snd item) \<and>
        (\<exists>r r'. dp_cluster env (dp_cluster_args d out (snd item)
                   (map (\<lambda>g. d_gene_expression_matrix d ! g) (snd item))) r = Inr (c, r')))
       (o_optimal_cluster_labels x) cs"
    "list_all2 (\<lambda>c c'. \<exists>r r'. update_cluster_attributes env c (update_args a d out) r = Inr (c', r'))
       cs cs'"
    "trace w = trace w2 @ [Select sc] @
       concat (map (refit_round a d out) (zip (o_optimal_cluster_labels x) cs)) @
       report_events x @ plot_evs"
    "list_all (\<lambda>e. phase e = 7) plot_evs" "plot a \<or> plot_evs = []"
    by blast
  have g: "\<exists>GS r2 r3 out0. gibbs_sampler env (sampler_call a d) (rng w1) = Inr (GS, r2) \<and>
        sampler env GS r2 = Inr (out0, r3) \<and>
        out = out0\<lparr>
          sampled_clusterings := (sampled_clusterings out0)\<lparr>df_columns := d_gene_names d\<rparr>,
          all_clusterings := (all_clusterings out0)\<lparr>df_columns := d_gene_names d\<rparr>\<rparr>"
    using gs by blast
  have t: "tr = [Seed 1234,
           Read_gene_expression_matrices (split_on CHR '','' input) (true_times a)
             (do_not_mean_center a) (sigma_n2_shape a) (sigma_n2_rate a),
           Gibbs_sampler (sampler_call a d), Sampler, Select sc] @
          concat (map (refit_round a d out) (zip (o_optimal_cluster_labels x) cs)) @
          report_events x @ plot_evs"
    using tr s(13) t2 t1 by simp
  show ?thesis
    apply (rule exI [of _ input])
    apply (rule exI [of _ d0])
    apply (rule exI [of _ "rng w1"])
    apply (rule exI [of _ sc])
    apply (rule exI [of _ cs])
    apply (rule exI [of _ cs'])
    apply (rule exI [of _ plot_evs])
    unfolding s(1,2,3)
    using chk rd d_def bi g s(4-12) t s(14,15) unfolding s(2,3) by (intro conjI) assumption+
qed

subsection \<open>What any run has logged\<close>

lemma run_seed_first:
  fixes env :: "('g, 'c) collaborators"
  shows "snd (run env a r) = [] \<or>
   (\<exists>evs. snd (run env a r) = Seed 1234 # evs \<and> list_all (\<lambda>e. 1 \<le> phase e) evs)"
proof (cases "check_arguments a")
  case (Inl e)
  then show ?thesis by (simp add: run_unfold)
next
  case (Inr p)
  obtain input prefix where p: "p = (input, prefix)" by (cases p)
  let ?w0 = "\<lparr>rng = 1234, trace = [Seed 1234]\<rparr> :: 'c world"
  obtain res w where m: "then_do (import_data env a input)
      (rescale_and_cluster env a prefix) ?w0 = (res, w)"
    by (cases "then_do (import_data env a input) (rescale_and_cluster env a prefix) ?w0")
  obtain evs where "trace w = trace ?w0 @ evs"
    "list_all (\<lambda>e. 1 \<le> phase e \<and> phase e \<le> 7) evs"
    using stays_within_import_cluster [of env a input prefix] m unfolding stays_within_def
    by blast
  then show ?thesis using Inr p m by (auto simp: run_unfold list_all_iff)
qed

lemma sampling_any:
  assumes "then_do (call Sampler f) (\<lambda>out.
     then_do (lift (g out)) (\<lambda>sampled.
     then_do (lift (h out)) (\<lambda>all. ret (k out sampled all)))) w = (res, w')"
  shows "trace w' = trace w @ [Sampler]"
  using assms
proof (cases rule: then_do_cases)
  case (raised e)
  show ?thesis using raised(1) by (rule call_trace)
next
  case (returned out w1)
  have "w' = w1" using returned(2)
    by (auto simp: then_do_def lift_def ret_def split: sum.splits)
  then show ?thesis using call_trace [OF returned(1)] by simp
qed

lemma run_sampler_started:
  assumes "run_sampler env a d w = (res, w')"
    and "gibbs_sampler env (sampler_call a d) (rng w) = Inr (GS, r2)"
  shows "trace w' = trace w @ [Gibbs_sampler (sampler_call a d), Sampler]"
  using assms(1) unfolding run_sampler_def
proof (cases rule: then_do_cases)
  case (raised e)
  then show ?thesis using assms(2) by (simp add: call_def Let_def)
next
  case (returned GS' w1)
  have "trace w1 = trace w @ [Gibbs_sampler (sampler_call a d)]"
    using returned(1) by (rule call_trace)
  then show ?thesis using sampling_any [OF returned(2)] by simp
qed

lemma run_starts_sampling:
  fixes env :: "('g, 'c) collaborators"
  assumes "check_arguments a = Inr (input, prefix)"
    and "read_gene_expression_matrices env (split_on CHR '','' input) (true_times a)
           (do_not_mean_center a) (sigma_n2_shape a) (sigma_n2_rate a) 1234 = Inr (d, r1)"
    and "burnIn (max_num_iterations a) = Inr b"
    and "gibbs_sampler env (sampler_call a (rescale_t env d)) r1 = Inr (GS, r2)"
  shows "\<exists>evs. snd (run env a r) =
           [Seed 1234,
            Read_gene_expression_matrices (split_on CHR '','' input) (true_times a)
              (do_not_mean_center a) (sigma_n2_shape a) (sigma_n2_rate a),
            Gibbs_sampler (sampler_call a (rescale_t env d)), Sampler] @ evs \<and>
           list_all (\<lambda>e. 3 \<le> phase e) evs"
proof -
  note bi = assms(3)
  let ?rd = "Read_gene_expression_matrices (split_on CHR '','' input) (true_times a)
              (do_not_mean_center a) (sigma_n2_shape a) (sigma_n2_rate a)"
  let ?w1 = "\<lparr>rng = r1, trace = [Seed 1234, ?rd]\<rparr> :: 'c world"
  have imp: "import_data env a input \<lparr>rng = 1234, trace = [Seed 1234]\<rparr> = (Inr d, ?w1)"
    using assms(2) by (simp add: import_data_def call_def Let_def)
  obtain res w' where c: "cluster_and_report env a (rescale_t env d) prefix ?w1 = (res, w')"
    by (cases "cluster_and_report env a (rescale_t env d) prefix ?w1")
  have r: "run env a r = (res, trace w')"
    using assms(1) imp c bi by (simp add: run_unfold then_do_def rescale_and_cluster_def lift_def)
  have g: "gibbs_sampler env (sampler_call a (rescale_t env d)) (rng ?w1) = Inr (GS, r2)"
    using assms(4) by simp
  have "\<exists>evs. trace w' = trace ?w1 @ [Gibbs_sampler (sampler_call a (rescale_t env d)), Sampler] @ evs \<and>
          list_all (\<lambda>e. 3 \<le> phase e) evs"
    using c unfolding cluster_and_report_def
  proof (cases rule: then_do_cases)
    case (raised e)
    then show ?thesis using run_sampler_started [OF _ g] by auto
  next
    case (returned out w2)
    obtain evs where "trace w' = trace w2 @ evs"
      "list_all (\<lambda>e. 3 \<le> phase e \<and> phase e \<le> 7) evs"
      using stays_within_select_refit_report [of env a "rescale_t env d" prefix out] returned(2)
      unfolding stays_within_def by blast
    then show ?thesis using run_sampler_started [OF returned(1) g] by (auto simp: list_all_iff)
  qed
  then show ?thesis using r by simp
qed

subsection \<open>Selection in any run\<close>

lemma find_optimal_any:
  assumes "find_optimal env a out w = (res, w')"
  shows "trace w' = trace w \<or>
         (\<exists>sc. select_call (criterion a) out = Some sc \<and> trace w' = trace w @ [Select sc])"
  using assms unfolding find_optimal_def
  by (auto split: option.splits simp: lift_eq dest: call_trace)

lemma filter_phase_none:
  "list_all (\<lambda>e. phase e \<noteq> n) evs \<Longrightarrow> filter (\<lambda>e. phase e = n) evs = []"
  by (induction evs) auto

lemma select_refit_report_any:
  assumes "select_refit_report env a d prefix out w = (res, w')"
  shows "\<exists>evs. trace w' = trace w @ evs \<and>
           (filter (\<lambda>e. phase e = 4) evs = [] \<or>
            (\<exists>sc. select_call (criterion a) out = Some sc \<and>
                   filter (\<lambda>e. phase e = 4) evs = [Select sc]))"
  using assms unfolding select_refit_report_def
proof (cases rule: then_do_cases)
  case (raised e)
  then show ?thesis using find_optimal_any [of env a out w "Inl e" w'] by auto
next
  case (returned oc w1)
  obtain evs2 where 2: "trace w' = trace w1 @ evs2"
    "list_all (\<lambda>e. 5 \<le> phase e \<and> phase e \<le> 7) evs2"
    using stays_within_refit_and_report [of env a d prefix out oc] returned(2)
    unfolding stays_within_def by blast
  have f2: "filter (\<lambda>e. phase e = 4) evs2 = []"
    by (rule filter_phase_none) (use 2(2) in \<open>auto simp: list_all_iff\<close>)
  from find_optimal_any [OF returned(1)] show ?thesis
  proof
    assume "trace w1 = trace w"
    then show ?thesis using 2(1) f2 by auto
  next
    assume "\<exists>sc. select_call (criterion a) out = Some sc \<and> trace w1 = trace w @ [Select sc]"
    then obtain sc where "select_call (criterion a) out = Some sc"
      "trace w1 = trace w @ [Select sc]" by blast
    then have "trace w' = trace w @ (Select sc # evs2)"
      "filter (\<lambda>e. phase e = 4) (Select sc # evs2) = [Select sc]"
      using 2(1) f2 by simp_all
    then show ?thesis using \<open>select_call (criterion a) out = Some sc\<close> by blast
  qed
qed

lemma cluster_and_report_select:
  assumes "cluster_and_report env a d prefix w = (res, w')"
  shows "\<exists>evs. trace w' = trace w @ evs \<and>
           (filter (\<lambda>e. phase e = 4) evs = [] \<or>
            (\<exists>sc out. select_call (criterion a) out = Some sc \<and>
                   filter (\<lambda>e. phase e = 4) evs = [Select sc]))"
  using assms unfolding cluster_and_report_def
proof (cases rule: then_do_cases)
  case (raised e)
  obtain evs where "trace w' = trace w @ evs"
    "list_all (\<lambda>e. 2 \<le> phase e \<and> phase e \<le> 3) evs"
    using stays_within_run_sampler [of env a d] raised(1) unfolding stays_within_def by blast
  moreover have "filter (\<lambda>e. phase e = 4) evs = []"
    by (rule filter_phase_none) (use calculation(2) in \<open>auto simp: list_all_iff\<close>)
  ultimately show ?thesis by blast
next
  case (returned out w1)
  obtain evs1 where 1: "trace w1 = trace w @ evs1"
    "list_all (\<lambda>e. 2 \<le> phase e \<and> phase e \<le> 3) evs1"
    using stays_within_run_sampler [of env a d] returned(1) unfolding stays_within_def by blast
  have f1: "filter (\<lambda>e. phase e = 4) evs1 = []"
    by (rule filter_phase_none) (use 1(2) in \<open>auto simp: list_all_iff\<close>)
  obtain evs2 where 2: "trace w' = trace w1 @ evs2"
    "filter (\<lambda>e. phase e = 4) evs2 = [] \<or>
       (\<exists>sc. select_call (criterion a) out = Some sc \<and>
              filter (\<lambda>e. phase e = 4) evs2 = [Select sc])"
    using select_refit_report_any [OF returned(2)] by blast
  have "trace w' = trace w @ (evs1 @ evs2)" using 1(1) 2(1) by simp
  moreover have "filter (\<lambda>e. phase e = 4) (evs1 @ evs2) = filter (\<lambda>e. phase e = 4) evs2"
    using f1 by simp
  ultimately show ?thesis using 2(2) by metis
qed

lemma rescale_and_cluster_select:
  assumes "rescale_and_cluster env a prefix d w = (res, w')"
  shows "\<exists>evs. trace w' = trace w @ evs \<and>
           (filter (\<lambda>e. phase e = 4) evs = [] \<or>
            (\<exists>sc out. select_call (criterion a) out = Some sc \<and>
                   filter (\<lambda>e. phase e = 4) evs = [Select sc]))"
  using assms unfolding rescale_and_cluster_def
proof (cases rule: then_do_cases)
  case (raised e)
  then show ?thesis by (simp add: lift_eq)
next
  case (returned u w1)
  then show ?thesis using cluster_and_report_select [of env a "rescale_t env d" prefix w1 res w']
    by (simp add: lift_eq)
qed

lemma run_select:
  fixes env :: "('g, 'c) collaborators"
  shows "filter (\<lambda>e. phase e = 4) (snd (run env a r)) = [] \<or>
   (\<exists>sc out. select_call (criterion a) out = Some sc \<and>
      filter (\<lambda>e. phase e = 4) (snd (run env a r)) = [Select sc])"
proof (cases "check_arguments a")
  case (Inl e)
  then show ?thesis by (simp add: run_unfold)
next
  case (Inr p)
  obtain input prefix where p: "p = (input, prefix)" by (cases p)
  let ?w0 = "\<lparr>rng = 1234, trace = [Seed 1234]\<rparr> :: 'c world"
  obtain res w where m: "then_do (import_data env a input)
      (rescale_and_cluster env a prefix) ?w0 = (res, w)"
    by (cases "then_do (import_data env a input) (rescale_and_cluster env a prefix) ?w0")
  have r: "snd (run env a r) = trace w" using Inr p m by (simp add: run_unfold)
  from m show ?thesis
  proof (cases rule: then_do_cases)
    case (raised e)
    then obtain evs where "trace w = trace ?w0 @ evs"
      "list_all (\<lambda>e. 1 \<le> phase e \<and> phase e \<le> 1) evs"
      using stays_within_import_data [of env a input] unfolding stays_within_def by blast
    then have "filter (\<lambda>e. phase e = 4) (trace w) = []"
      by (auto simp: list_all_iff filter_empty_conv)
    then show ?thesis using r by simp
  next
    case (returned d w1)
    obtain evs1 where 1: "trace w1 = trace ?w0 @ evs1"
      "list_all (\<lambda>e. 1 \<le> phase e \<and> phase e \<le> 1) evs1"
      using stays_within_import_data [of env a input] returned(1) unfolding stays_within_def
      by blast
    have f1: "filter (\<lambda>e. phase e = 4) (trace w1) = []"
      using 1 by (auto simp: list_all_iff filter_empty_conv)
    obtain evs2 where 2: "trace w = trace w1 @ evs2"
      "filter (\<lambda>e. phase e = 4) evs2 = [] \<or>
       (\<exists>sc out. select_call (criterion a) out = Some sc \<and>
              filter (\<lambda>e. phase e = 4) evs2 = [Select sc])"
      using rescale_and_cluster_select [OF returned(2)] by blast
    have "filter (\<lambda>e. phase e = 4) (trace w) = filter (\<lambda>e. phase e = 4) evs2"
      using 2(1) f1 by simp
    then show ?thesis using 2(2) r by simp
  qed
qed

subsection \<open>The refit events of a run\<close>

lemma filter_refit_rounds:
  "filter (\<lambda>e. phase e = 5) (concat (map (refit_round a d out) xs)) =
   concat (map (refit_round a d out) xs)"
  by (induction xs) (auto simp: refit_round_def)

lemma filter_select_refit_rounds:
  "filter (\<lambda>e. phase e = 4) (concat (map (refit_round a d out) xs)) = []"
  by (induction xs) (auto simp: refit_round_def)

lemma phase_report_events: "list_all (\<lambda>e. phase e = 6) (report_events x)"
  by (simp add: report_events_def)

subsection \<open>Rejected arguments\<close>

text \<open>
  C1. For every criterion string that is not one of the five names, the run
  ends with nothing logged: the seed is not set, the expression matrix is not read, the
  sampler is neither constructed nor run and no file is written. It ends with the
  \<^verbatim>\<open>ValueError\<close> of line 280 when both required arguments are given, and with the
  help message and \<^verbatim>\<open>exit()\<close> of lines 272-273 when one of them is missing.
\<close>

theorem invalid_criterion_rejected:
  assumes "criterion a \<notin> set valid_criteria"
  shows "run env a r =
           (if gene_expression_matrix a = None \<or> output_path_prefix a = None
            then Inl Help_exit else Inl ValueError_criterion, [])"
proof -
  have "check_arguments a =
          (if gene_expression_matrix a = None \<or> output_path_prefix a = None
           then Inl Help_exit else Inl ValueError_criterion)"
    using assms by (auto simp: check_arguments_def split: option.splits)
  then show ?thesis by (simp add: run_rejected)
qed

theorem invalid_criterion_rejected_witness:
  "criterion (example_args\<lparr>criterion := ''bogus''\<rparr>) \<notin> set valid_criteria \<and>
   run example_collaborators (example_args\<lparr>criterion := ''bogus''\<rparr>) 0 =
     (Inl ValueError_criterion, [])"
  using invalid_criterion_rejected [of "example_args\<lparr>criterion := ''bogus''\<rparr>"
      example_collaborators 0]
  by (simp add: valid_criteria_def example_args_def default_args_def)

text \<open>
  With the criterion \<^verbatim>\<open>bogus\<close> and no input file named, the run ends with the help
  message, not with the \<^verbatim>\<open>ValueError\<close>.
\<close>

theorem invalid_criterion_help_exit:
  "''bogus'' \<notin> set valid_criteria \<and>
   run example_collaborators (default_args\<lparr>criterion := ''bogus''\<rparr>) 0 = (Inl Help_exit, []) \<and>
   fst (run example_collaborators (default_args\<lparr>criterion := ''bogus''\<rparr>) 0) \<noteq>
     Inl ValueError_criterion"
  by (simp add: run_unfold check_arguments_def valid_criteria_def default_args_def)

subsection \<open>The configuration of the sampler\<close>








subsection \<open>The optimizer\<close>

text \<open>
  C9. The optimizer name is not checked: the argument check gives the same answer whatever
  the string, and a run whose arguments pass it, whose input is read and whose burn-in
  lengths are bound constructs the sampler with the string unchanged and, when the
  constructor returns, runs the sampler. The refit passes the same string on.
\<close>

theorem optimizer_passed_unchecked:
  fixes env :: "('g, 'c) collaborators"
  shows "check_arguments (a\<lparr>optimizer := s\<rparr>) = check_arguments a \<and>
    uc_optimizer (update_args (a\<lparr>optimizer := s\<rparr>) d' out) = s \<and>
    (\<forall>input prefix d r1 b.
       check_arguments a = Inr (input, prefix) \<and>
       read_gene_expression_matrices env (split_on CHR '','' input) (true_times a)
         (do_not_mean_center a) (sigma_n2_shape a) (sigma_n2_rate a) 1234 = Inr (d, r1) \<and>
       burnIn (max_num_iterations a) = Inr b \<longrightarrow>
       (\<exists>evs. snd (run env (a\<lparr>optimizer := s\<rparr>) r) =
          [Seed 1234,
           Read_gene_expression_matrices (split_on CHR '','' input) (true_times a)
             (do_not_mean_center a) (sigma_n2_shape a) (sigma_n2_rate a),
           Gibbs_sampler ((sampler_call a (rescale_t env d))\<lparr>gs_optimizer := s\<rparr>)] @ evs) \<and>
       (\<forall>GS r2.
          gibbs_sampler env ((sampler_call a (rescale_t env d))\<lparr>gs_optimizer := s\<rparr>) r1 =
            Inr (GS, r2) \<longrightarrow>
          (\<exists>evs. snd (run env (a\<lparr>optimizer := s\<rparr>) r) =
            [Seed 1234,
             Read_gene_expression_matrices (split_on CHR '','' input) (true_times a)
               (do_not_mean_center a) (sigma_n2_shape a) (sigma_n2_rate a),
             Gibbs_sampler ((sampler_call a (rescale_t env d))\<lparr>gs_optimizer := s\<rparr>),
             Sampler] @ evs)))"
proof -
  let ?a = "a\<lparr>optimizer := s\<rparr>"
  have chk: "check_arguments ?a = check_arguments a"
    by (simp add: check_arguments_def split: option.splits)
  have uc: "uc_optimizer (update_args ?a d' out) = s" by (simp add: update_args_def)
  have sc: "\<And>d. sampler_call ?a d = (sampler_call a d)\<lparr>gs_optimizer := s\<rparr>"
    by (simp add: sampler_call_def)
  have "\<exists>evs. snd (run env ?a r) =
          [Seed 1234,
           Read_gene_expression_matrices (split_on CHR '','' input) (true_times a)
             (do_not_mean_center a) (sigma_n2_shape a) (sigma_n2_rate a),
           Gibbs_sampler ((sampler_call a (rescale_t env d))\<lparr>gs_optimizer := s\<rparr>)] @ evs"
    if "check_arguments a = Inr (input, prefix)"
      "read_gene_expression_matrices env (split_on CHR '','' input) (true_times a)
         (do_not_mean_center a) (sigma_n2_shape a) (sigma_n2_rate a) 1234 = Inr (d, r1)"
      "burnIn (max_num_iterations a) = Inr b"
    for input prefix d r1 b
    using run_reaches_sampler [of ?a input prefix env d r1 b r] that chk by (auto simp: sc)
  moreover have "\<exists>evs. snd (run env ?a r) =
          [Seed 1234,
           Read_gene_expression_matrices (split_on CHR '','' input) (true_times a)
             (do_not_mean_center a) (sigma_n2_shape a) (sigma_n2_rate a),
           Gibbs_sampler ((sampler_call a (rescale_t env d))\<lparr>gs_optimizer := s\<rparr>),
           Sampler] @ evs"
    if "check_arguments a = Inr (input, prefix)"
      "read_gene_expression_matrices env (split_on CHR '','' input) (true_times a)
         (do_not_mean_center a) (sigma_n2_shape a) (sigma_n2_rate a) 1234 = Inr (d, r1)"
      "burnIn (max_num_iterations a) = Inr b"
      "gibbs_sampler env ((sampler_call a (rescale_t env d))\<lparr>gs_optimizer := s\<rparr>) r1 =
         Inr (GS, r2)"
    for input prefix d r1 b GS r2
    using run_starts_sampling [of ?a input prefix env d r1 b GS r2 r] that chk
    by (auto simp: sc)
  ultimately show ?thesis using chk uc by blast
qed

lemma example_args_accepted:
  "check_arguments example_args = Inr (''expr.txt'', ''out'') \<and>
   read_gene_expression_matrices example_collaborators (split_on CHR '','' ''expr.txt'')
     (true_times example_args) (do_not_mean_center example_args) (sigma_n2_shape example_args)
     (sigma_n2_rate example_args) 1234 = Inr (example_design, 1234) \<and>
   burnIn (max_num_iterations example_args) = Inr (240, 480)"
  by (simp add: check_arguments_def valid_criteria_def example_args_def default_args_def
      example_collaborators_def burnIn_1000)

lemma example_sampler_constructed:
  "gibbs_sampler example_collaborators sa 1234 = Inr ((), 1234)"
  by (simp add: example_collaborators_def)

theorem optimizer_passed_unchecked_witness:
  "check_arguments example_args = Inr (''expr.txt'', ''out'') \<and>
   read_gene_expression_matrices example_collaborators (split_on CHR '','' ''expr.txt'')
     (true_times example_args) (do_not_mean_center example_args) (sigma_n2_shape example_args)
     (sigma_n2_rate example_args) 1234 = Inr (example_design, 1234) \<and>
   burnIn (max_num_iterations example_args) = Inr (240, 480) \<and>
   gibbs_sampler example_collaborators
     ((sampler_call example_args (rescale_t example_collaborators example_design))
        \<lparr>gs_optimizer := ''no_such_optimizer''\<rparr>) 1234 = Inr ((), 1234) \<and>
   (\<exists>evs. snd (run example_collaborators
        (example_args\<lparr>optimizer := ''no_such_optimizer''\<rparr>) 0) =
      [Seed 1234,
       Read_gene_expression_matrices (split_on CHR '','' ''expr.txt'') (true_times example_args)
         (do_not_mean_center example_args) (sigma_n2_shape example_args)
         (sigma_n2_rate example_args),
       Gibbs_sampler ((sampler_call example_args
            (rescale_t example_collaborators example_design))
         \<lparr>gs_optimizer := ''no_such_optimizer''\<rparr>), Sampler] @ evs)"
  using example_args_accepted example_sampler_constructed
    optimizer_passed_unchecked [where a = example_args and s = "''no_such_optimizer''"
      and env = example_collaborators and r = 0]
  by blast

subsection \<open>The seed\<close>

lemma noisy_run_result:
  "fst (run noisy_collaborators example_args r) =
     Inr (example_outputs\<lparr>o_sampler_out :=
            (o_sampler_out example_outputs)\<lparr>log_likelihoods := [- 1234]\<rparr>\<rparr>)"
proof -
  have dc: "\<And>d out genes rows. dc_members (dp_cluster_args d out genes rows) = genes"
    by (simp add: dp_cluster_args_def)
  have chk: "check_arguments example_args = Inr (''expr.txt'', ''out'')"
    by (simp add: check_arguments_def valid_criteria_def example_args_def default_args_def)
  have a: "max_num_iterations example_args = 1000" "criterion example_args = ''MAP''"
    "\<not> plot example_args"
    by (simp_all add: example_args_def default_args_def)
  show ?thesis
    by (simp add: run_unfold chk a burnIn_1000 import_data_def call_def Let_def
      then_do_def rescale_and_cluster_def rescale_t_def np_vstack_example
      cluster_and_report_def run_sampler_def select_refit_report_def
      refit_and_report_def
      find_optimal_def select_call_def lift_def ret_def set_columns_def
      noisy_collaborators_def example_collaborators_def example_labels report_def
      take_rows_def dc example_outputs_def
      example_design_def [THEN arg_cong, of d_gene_names]
      example_design_def [THEN arg_cong, of d_gene_expression_matrix]
      example_sampler_out_def)
qed

text \<open>
  C3. The run does not depend on the state the generator is in when the process starts:
  two runs on the same collaborators and arguments end with the same result (the
  similarity matrix and the two assignment histories among it) and the same log. The seed
  is set before anything else is done: a run that logs anything logs \<^verbatim>\<open>Seed 1234\<close>
  first, and reading and sampling come after. That the sampler draws from numpy's
  generator and from nothing else is what the spec says of it.
\<close>

theorem run_deterministic:
  fixes env :: "('g, 'c) collaborators"
  shows "run env a r1 = run env a r2 \<and>
    (snd (run env a r1) = [] \<or>
     (\<exists>evs. snd (run env a r1) = Seed 1234 # evs \<and> list_all (\<lambda>e. 1 \<le> phase e) evs))"
  using run_any_rng [of env a r1 r2] run_seed_first [of env a r1] by blast

text \<open>
  A sampler whose output is the state it starts from gives different output from the
  states 0 and 77; the two runs started in these states are the same, and their
  log-likelihood is the seed.
\<close>

theorem run_deterministic_witness:
  "sampler noisy_collaborators () 0 \<noteq> sampler noisy_collaborators () 77 \<and>
   run noisy_collaborators example_args 0 = run noisy_collaborators example_args 77 \<and>
   fst (run noisy_collaborators example_args 77) =
     Inr (example_outputs\<lparr>o_sampler_out :=
            (o_sampler_out example_outputs)\<lparr>log_likelihoods := [- 1234]\<rparr>\<rparr>)"
  using run_deterministic [of noisy_collaborators example_args 0 77] noisy_run_result [of 0]
  by (simp add: noisy_collaborators_def)

subsection \<open>Selection, refit and the order of the phases\<close>

lemma run_result:
  assumes "fst (run env a r) = Inr x"
  shows "run env a r = (Inr x, snd (run env a r))"
  using assms by (cases "run env a r") simp

lemma example_run_result: "fst (run example_collaborators example_args r) = Inr example_outputs"
proof -
  have "burnIn (max_num_iterations example_args) = Inr (240, 480)"
    by (simp add: example_args_def default_args_def burnIn_1000)
  then show ?thesis
    using example_run [where a = example_args and r = r]
    by (simp add: example_args_def default_args_def)
qed

lemma example_selects_over_genes:
  "selects_over_genes example_collaborators (length (d_gene_names (o_design example_outputs)))"
  "length (o_optimal_clusters example_outputs) = length (d_gene_names (o_design example_outputs))"
  by (simp_all add: selects_over_genes_def example_collaborators_def example_outputs_def
      example_design_def)

text \<open>
  C5. The dispatch on the criterion covers exactly the five accepted names, each with its
  own call: \<^verbatim>\<open>MAP\<close> is given the thinned history and the log-likelihoods,
  \<^verbatim>\<open>MPEAR\<close> and \<^verbatim>\<open>least_squares\<close> the thinned history and the similarity
  matrix, \<^verbatim>\<open>h_clust_avg\<close> and \<^verbatim>\<open>h_clust_comp\<close> the similarity matrix alone,
  with average and complete linkage. No run makes more than one selection call, and the
  call it makes is the one of its criterion. A run that completes has made exactly one, on
  the output of its sampler, and the vector the call returned is the optimal clustering;
  on selection functions that return vectors over the genes, as the spec says they do, it
  has one entry for every gene name of the design.
\<close>

theorem one_selection_per_run:
  fixes env :: "('g, 'c) collaborators"
  shows "(select_call c out \<noteq> None \<longleftrightarrow> c \<in> set valid_criteria) \<and>
    select_call ''MAP'' out =
      Some (Best_clustering_by_log_likelihood (df_values (sampled_clusterings out))
              (log_likelihoods out)) \<and>
    select_call ''MPEAR'' out =
      Some (Best_clustering_by_mpear (df_values (sampled_clusterings out)) (sim_mat out)) \<and>
    select_call ''least_squares'' out =
      Some (Best_clustering_by_sq_dist (df_values (sampled_clusterings out)) (sim_mat out)) \<and>
    select_call ''h_clust_avg'' out = Some (Best_clustering_by_h_clust (sim_mat out) ''average'') \<and>
    select_call ''h_clust_comp'' out =
      Some (Best_clustering_by_h_clust (sim_mat out) ''complete'') \<and>
    (filter (\<lambda>e. phase e = 4) (snd (run env a r)) = [] \<or>
     (\<exists>sc out'. select_call (criterion a) out' = Some sc \<and>
        filter (\<lambda>e. phase e = 4) (snd (run env a r)) = [Select sc])) \<and>
    (\<forall>x. fst (run env a r) = Inr x \<longrightarrow>
       criterion a \<in> set valid_criteria \<and>
       (\<exists>sc. select_call (criterion a) (o_sampler_out x) = Some sc \<and>
          filter (\<lambda>e. phase e = 4) (snd (run env a r)) = [Select sc] \<and>
          (\<exists>r0 r'. cluster_tools env sc r0 = Inr (o_optimal_clusters x, r'))) \<and>
       (selects_over_genes env (length (d_gene_names (o_design x))) \<longrightarrow>
          length (o_optimal_clusters x) = length (d_gene_names (o_design x))))"
proof -
  have valid: "select_call c out \<noteq> None \<longleftrightarrow> c \<in> set valid_criteria" for c out
    by (simp add: select_call_def valid_criteria_def)
  have fin: "criterion a \<in> set valid_criteria \<and>
       (\<exists>sc. select_call (criterion a) (o_sampler_out x) = Some sc \<and>
          filter (\<lambda>e. phase e = 4) (snd (run env a r)) = [Select sc] \<and>
          (\<exists>r0 r'. cluster_tools env sc r0 = Inr (o_optimal_clusters x, r'))) \<and>
       (selects_over_genes env (length (d_gene_names (o_design x))) \<longrightarrow>
          length (o_optimal_clusters x) = length (d_gene_names (o_design x)))"
    if "fst (run env a r) = Inr x" for x
  proof -
    from run_Inr [OF run_result [OF that]] obtain input sc cs plot_evs where
      sc: "select_call (criterion a) (o_sampler_out x) = Some sc"
      and ct: "\<exists>r r'. cluster_tools env sc r = Inr (o_optimal_clusters x, r')"
      and tr: "snd (run env a r) =
          [Seed 1234,
           Read_gene_expression_matrices (split_on CHR '','' input) (true_times a)
             (do_not_mean_center a) (sigma_n2_shape a) (sigma_n2_rate a),
           Gibbs_sampler (sampler_call a (o_design x)), Sampler, Select sc] @
          concat (map (refit_round a (o_design x) (o_sampler_out x))
                    (zip (o_optimal_cluster_labels x) cs)) @
          report_events x @ plot_evs"
      and pl: "list_all (\<lambda>e. phase e = 7) plot_evs"
      by blast
    have "filter (\<lambda>e. phase e = 4) plot_evs = []"
      using pl by (auto simp: filter_empty_conv list_all_iff)
    then have "filter (\<lambda>e. phase e = 4) (snd (run env a r)) = [Select sc]"
      unfolding tr by (simp add: filter_select_refit_rounds report_events_def)
    moreover have "criterion a \<in> set valid_criteria"
      using sc valid [of "criterion a" "o_sampler_out x"] by simp
    moreover have "selects_over_genes env (length (d_gene_names (o_design x))) \<longrightarrow>
          length (o_optimal_clusters x) = length (d_gene_names (o_design x))"
      using ct unfolding selects_over_genes_def by blast
    ultimately show ?thesis using sc ct by blast
  qed
  show ?thesis
    apply (intro conjI allI impI)
           apply (rule valid)
          apply (simp add: select_call_def)
         apply (simp add: select_call_def)
        apply (simp add: select_call_def)
       apply (simp add: select_call_def)
      apply (simp add: select_call_def)
     apply (rule run_select)
    using fin by blast+
qed

theorem one_selection_per_run_witness:
  "fst (run example_collaborators example_args 0) = Inr example_outputs \<and>
   criterion example_args \<in> set valid_criteria \<and>
   (\<exists>sc. select_call (criterion example_args) (o_sampler_out example_outputs) = Some sc \<and>
      filter (\<lambda>e. phase e = 4) (snd (run example_collaborators example_args 0)) = [Select sc] \<and>
      (\<exists>r0 r'. cluster_tools example_collaborators sc r0 =
                 Inr (o_optimal_clusters example_outputs, r'))) \<and>
   selects_over_genes example_collaborators (length (d_gene_names (o_design example_outputs))) \<and>
   length (o_optimal_clusters example_outputs) = length (d_gene_names (o_design example_outputs))"
  using example_run_result [of 0] example_selects_over_genes
    one_selection_per_run [where env = example_collaborators and a = example_args and r = 0]
  by blast

text \<open>
  C6. In a run that completes, the refit section handles every cluster of the selected
  clustering once: the cluster ids of the grouping are distinct and are the ids assigned
  to the genes; the events of the section are, for each id in turn, one call of
  \<^verbatim>\<open>dp_cluster\<close> with the members of that cluster and their rows of the
  expression matrix, then one call of \<^verbatim>\<open>update_cluster_attributes\<close> on the object
  just built, with the run's \<^verbatim>\<open>max_iters\<close> and \<^verbatim>\<open>optimizer\<close>; and the
  dictionary of refit clusters holds, under each id, the object the second call returned.
\<close>

theorem each_cluster_refit_once:
  fixes env :: "('g, 'c) collaborators" and x :: "'c outputs"
  assumes "fst (run env a r) = Inr x"
  shows "o_optimal_cluster_labels x =
      optimal_cluster_labels (d_gene_names (o_design x)) (o_optimal_clusters x) \<and>
    distinct (map fst (o_optimal_cluster_labels x)) \<and>
    fst ` set (o_optimal_cluster_labels x) =
      snd ` set (zip (d_gene_names (o_design x)) (o_optimal_clusters x)) \<and>
    map fst (o_optimal_clusters_GP x) = map fst (o_optimal_cluster_labels x) \<and>
    uc_max_iters (update_args a (o_design x) (o_sampler_out x)) = max_iters a \<and>
    uc_optimizer (update_args a (o_design x) (o_sampler_out x)) = optimizer a \<and>
    (\<exists>cs cs'.
       length cs = length (o_optimal_cluster_labels x) \<and>
       length cs' = length (o_optimal_cluster_labels x) \<and>
       filter (\<lambda>e. phase e = 5) (snd (run env a r)) =
         concat (map (refit_round a (o_design x) (o_sampler_out x))
                   (zip (o_optimal_cluster_labels x) cs)) \<and>
       o_optimal_clusters_GP x = zip (map fst (o_optimal_cluster_labels x)) cs' \<and>
       list_all2 (\<lambda>item c.
          list_all (\<lambda>g. g < length (d_gene_expression_matrix (o_design x))) (snd item) \<and>
          (\<exists>r0 r'. dp_cluster env (dp_cluster_args (o_design x) (o_sampler_out x) (snd item)
                     (map (\<lambda>g. d_gene_expression_matrix (o_design x) ! g) (snd item))) r0 =
                   Inr (c, r')))
         (o_optimal_cluster_labels x) cs \<and>
       list_all2 (\<lambda>c c'. \<exists>r0 r'. update_cluster_attributes env c
                    (update_args a (o_design x) (o_sampler_out x)) r0 = Inr (c', r'))
         cs cs')"
proof -
  from run_Inr [OF run_result [OF assms]] obtain input sc cs cs' plot_evs where
    L: "o_optimal_cluster_labels x =
       optimal_cluster_labels (d_gene_names (o_design x)) (o_optimal_clusters x)"
    and len: "length cs = length (o_optimal_cluster_labels x)"
      "length cs' = length (o_optimal_cluster_labels x)"
    and gp: "o_optimal_clusters_GP x = zip (map fst (o_optimal_cluster_labels x)) cs'"
    and built: "list_all2 (\<lambda>item c.
        list_all (\<lambda>g. g < length (d_gene_expression_matrix (o_design x))) (snd item) \<and>
        (\<exists>r r'. dp_cluster env (dp_cluster_args (o_design x) (o_sampler_out x) (snd item)
                   (map (\<lambda>g. d_gene_expression_matrix (o_design x) ! g) (snd item))) r =
                 Inr (c, r')))
       (o_optimal_cluster_labels x) cs"
    and upd: "list_all2 (\<lambda>c c'. \<exists>r r'. update_cluster_attributes env c
                  (update_args a (o_design x) (o_sampler_out x)) r = Inr (c', r'))
       cs cs'"
    and tr: "snd (run env a r) =
          [Seed 1234,
           Read_gene_expression_matrices (split_on CHR '','' input) (true_times a)
             (do_not_mean_center a) (sigma_n2_shape a) (sigma_n2_rate a),
           Gibbs_sampler (sampler_call a (o_design x)), Sampler, Select sc] @
          concat (map (refit_round a (o_design x) (o_sampler_out x))
                    (zip (o_optimal_cluster_labels x) cs)) @
          report_events x @ plot_evs"
    and pl: "list_all (\<lambda>e. phase e = 7) plot_evs"
    by blast
  have d: "distinct (map fst (o_optimal_cluster_labels x))"
    unfolding L optimal_cluster_labels_def group_genes_def by (rule labels_distinct)
  have k: "fst ` set (o_optimal_cluster_labels x) =
      snd ` set (zip (d_gene_names (o_design x)) (o_optimal_clusters x))"
    unfolding L optimal_cluster_labels_def group_genes_def by (rule labels_keys)
  have keys: "map fst (o_optimal_clusters_GP x) = map fst (o_optimal_cluster_labels x)"
    unfolding gp using len(2) by simp
  have "filter (\<lambda>e. phase e = 5) plot_evs = []"
    using pl by (auto simp: filter_empty_conv list_all_iff)
  then have f: "filter (\<lambda>e. phase e = 5) (snd (run env a r)) =
         concat (map (refit_round a (o_design x) (o_sampler_out x))
                   (zip (o_optimal_cluster_labels x) cs))"
    unfolding tr by (simp add: filter_refit_rounds report_events_def)
  have u: "uc_max_iters (update_args a (o_design x) (o_sampler_out x)) = max_iters a"
    "uc_optimizer (update_args a (o_design x) (o_sampler_out x)) = optimizer a"
    by (simp_all add: update_args_def)
  have ex: "\<exists>cs cs'.
       length cs = length (o_optimal_cluster_labels x) \<and>
       length cs' = length (o_optimal_cluster_labels x) \<and>
       filter (\<lambda>e. phase e = 5) (snd (run env a r)) =
         concat (map (refit_round a (o_design x) (o_sampler_out x))
                   (zip (o_optimal_cluster_labels x) cs)) \<and>
       o_optimal_clusters_GP x = zip (map fst (o_optimal_cluster_labels x)) cs' \<and>
       list_all2 (\<lambda>item c.
          list_all (\<lambda>g. g < length (d_gene_expression_matrix (o_design x))) (snd item) \<and>
          (\<exists>r0 r'. dp_cluster env (dp_cluster_args (o_design x) (o_sampler_out x) (snd item)
                     (map (\<lambda>g. d_gene_expression_matrix (o_design x) ! g) (snd item))) r0 =
                   Inr (c, r')))
         (o_optimal_cluster_labels x) cs \<and>
       list_all2 (\<lambda>c c'. \<exists>r0 r'. update_cluster_attributes env c
                    (update_args a (o_design x) (o_sampler_out x)) r0 = Inr (c', r'))
         cs cs'"
    apply (rule exI [of _ cs])
    apply (rule exI [of _ cs'])
    using len f gp built upd by (intro conjI) assumption+
  show ?thesis using L d k keys u ex by (intro conjI) assumption+
qed

theorem each_cluster_refit_once_witness:
  "fst (run example_collaborators example_args 0) = Inr example_outputs \<and>
   distinct (map fst (o_optimal_cluster_labels example_outputs)) \<and>
   map fst (o_optimal_clusters_GP example_outputs) =
     map fst (o_optimal_cluster_labels example_outputs) \<and>
   (\<exists>cs. length cs = length (o_optimal_cluster_labels example_outputs) \<and>
      filter (\<lambda>e. phase e = 5) (snd (run example_collaborators example_args 0)) =
        concat (map (refit_round example_args (o_design example_outputs)
                       (o_sampler_out example_outputs))
                  (zip (o_optimal_cluster_labels example_outputs) cs)))"
  using example_run_result [of 0]
    each_cluster_refit_once [of example_collaborators example_args 0 example_outputs]
  by blast

text \<open>
  C7. The events of every run are in the order of the sections of the script: seeding,
  import, construction of the sampler, sampling, selection, refit, report, plot. A run
  that completes has read the input once, then constructed and run the sampler once, then
  made one selection call, then refit the clusters, then written the four files of the
  report, and only then plotted; every call has returned before the next is made.
\<close>

theorem phases_in_order:
  fixes env :: "('g, 'c) collaborators"
  shows "sorted (map phase (snd (run env a r))) \<and>
    (\<forall>x. fst (run env a r) = Inr x \<longrightarrow>
       (\<exists>input sc cs plot_evs.
          snd (run env a r) =
            [Seed 1234,
             Read_gene_expression_matrices (split_on CHR '','' input) (true_times a)
               (do_not_mean_center a) (sigma_n2_shape a) (sigma_n2_rate a),
             Gibbs_sampler (sampler_call a (o_design x)), Sampler, Select sc] @
            concat (map (refit_round a (o_design x) (o_sampler_out x))
                      (zip (o_optimal_cluster_labels x) cs)) @
            report_events x @ plot_evs \<and>
          length cs = length (o_optimal_cluster_labels x) \<and>
          list_all (\<lambda>e. phase e = 7) plot_evs \<and> (plot a \<or> plot_evs = [])))"
proof -
  have "\<exists>input sc cs plot_evs.
          snd (run env a r) =
            [Seed 1234,
             Read_gene_expression_matrices (split_on CHR '','' input) (true_times a)
               (do_not_mean_center a) (sigma_n2_shape a) (sigma_n2_rate a),
             Gibbs_sampler (sampler_call a (o_design x)), Sampler, Select sc] @
            concat (map (refit_round a (o_design x) (o_sampler_out x))
                      (zip (o_optimal_cluster_labels x) cs)) @
            report_events x @ plot_evs \<and>
          length cs = length (o_optimal_cluster_labels x) \<and>
          list_all (\<lambda>e. phase e = 7) plot_evs \<and> (plot a \<or> plot_evs = [])"
    if "fst (run env a r) = Inr x" for x
    using run_Inr [OF run_result [OF that]] by blast
  then show ?thesis using run_sorted [of env a r] by blast
qed

theorem phases_in_order_witness:
  "fst (run example_collaborators example_args 0) = Inr example_outputs \<and>
   sorted (map phase (snd (run example_collaborators example_args 0))) \<and>
   (\<exists>input sc cs plot_evs.
      snd (run example_collaborators example_args 0) =
        [Seed 1234,
         Read_gene_expression_matrices (split_on CHR '','' input) (true_times example_args)
           (do_not_mean_center example_args) (sigma_n2_shape example_args)
           (sigma_n2_rate example_args),
         Gibbs_sampler (sampler_call example_args (o_design example_outputs)), Sampler,
         Select sc] @
        concat (map (refit_round example_args (o_design example_outputs)
                       (o_sampler_out example_outputs))
                  (zip (o_optimal_cluster_labels example_outputs) cs)) @
        report_events example_outputs @ plot_evs)"
  using example_run_result [of 0]
    phases_in_order [of example_collaborators example_args 0]
  by blast

end
